theory Spec2Isabelle
  imports Main "HOL-Library.Word" "HOL-Library.Signed_Division"
begin

unbundle bit_operations_syntax

section \<open>Strings\<close>

text \<open>
  A JavaScript string is a sequence of UTF-16 code units: \<open>s.length\<close> counts them,
  \<open>s.charCodeAt(i)\<close> reads one (0 to 65535), \<open>s.slice\<close> cuts between them. The
  ellipsis U+2026 and the Turkish letters of the fallback text are single code units.
\<close>

type_synonym code_unit = "16 word"
type_synonym jsstring = "code_unit list"

definition js :: "string \<Rightarrow> jsstring" where
  \<comment> \<open>an ASCII literal of the source\<close>
  "js s = map of_char s"

abbreviation LF :: code_unit where "LF \<equiv> 0x0A"
abbreviation CR :: code_unit where "CR \<equiv> 0x0D"
abbreviation ELLIPSIS :: code_unit where "ELLIPSIS \<equiv> 0x2026"
abbreviation COLON :: code_unit where "COLON \<equiv> 0x3A"
abbreviation COMMA :: code_unit where "COMMA \<equiv> 0x2C"
abbreviation BAR :: code_unit where "BAR \<equiv> 0x7C"
abbreviation HYPHEN :: code_unit where "HYPHEN \<equiv> 0x2D"

definition isWhiteSpace :: "code_unit \<Rightarrow> bool" where
  \<comment> \<open>what \<open>String.prototype.trim\<close> removes: WhiteSpace and LineTerminator\<close>
  "isWhiteSpace c \<longleftrightarrow>
     c \<in> set [0x09, 0x0A, 0x0B, 0x0C, 0x0D, 0x20, 0xA0, 0x1680, 0x2028, 0x2029,
                0x202F, 0x205F, 0x3000, 0xFEFF]
     \<or> (0x2000 \<le> c \<and> c \<le> 0x200A)"

definition trim :: "jsstring \<Rightarrow> jsstring" where
  "trim s = rev (dropWhile isWhiteSpace (rev (dropWhile isWhiteSpace s)))"

fun splitOn :: "'a \<Rightarrow> 'a list \<Rightarrow> 'a list list" where
  \<comment> \<open>\<open>s.split(sep)\<close> for a separator of one code unit; never the empty array\<close>
  "splitOn sep [] = [[]]"
| "splitOn sep (c # cs) =
     (if c = sep then [] # splitOn sep cs
      else (case splitOn sep cs of l # ls \<Rightarrow> (c # l) # ls | [] \<Rightarrow> [[c]]))"

fun joinWith :: "'a \<Rightarrow> 'a list list \<Rightarrow> 'a list" where
  \<comment> \<open>\<open>xs.join(sep)\<close>\<close>
  "joinWith sep [] = []"
| "joinWith sep [l] = l"
| "joinWith sep (l # ls) = l @ sep # joinWith sep ls"

definition sliceTo :: "int \<Rightarrow> 'a list \<Rightarrow> 'a list" where
  \<comment> \<open>\<open>xs.slice(0, end)\<close> of arrays and strings: a negative end counts from the back\<close>
  "sliceTo end xs =
     (if end < 0 then take (nat (int (length xs) + end)) xs else take (nat end) xs)"

function showNat :: "nat \<Rightarrow> jsstring" where
  "showNat n = (if n < 10 then [of_nat (48 + n)]
                else showNat (n div 10) @ [of_nat (48 + n mod 10)])"
  by pat_completeness auto
termination
  by (relation "measure id") auto

declare showNat.simps [simp del]

definition showInt :: "int \<Rightarrow> jsstring" where
  \<comment> \<open>an integer inside a template literal\<close>
  "showInt n = (if n < 0 then 0x2D # showNat (nat (- n)) else showNat (nat n))"

section \<open>Deterministic endpoint\<close>

definition fortunes :: "jsstring list" where
  "fortunes =
     [js ''A small step today becomes a milestone tomorrow.'',
      js ''Your curiosity is your superpower.'',
      js ''Luck favors the prepared mind.'',
      js ''A door closes; a better one slides open.'']"

text \<open>
  \<open>hashString\<close>. The variable \<open>h\<close> is a JavaScript number that holds a 32-bit signed
  value after each \<open>h |= 0\<close>. \<open>h << 5\<close> converts \<open>h\<close> to 32 bits, shifts and reads the
  result as signed; \<open>(h << 5) - h + s.charCodeAt(i)\<close> is then ordinary arithmetic (on
  doubles, exact at this size, see \<open>hash_step_exact\<close>); \<open>h |= 0\<close> converts back to 32 bits.
\<close>

definition toInt32 :: "int \<Rightarrow> int" where
  "toInt32 x = sint (word_of_int x :: 32 word)"

definition shiftLeft :: "int \<Rightarrow> nat \<Rightarrow> int" where
  "shiftLeft h n = sint (push_bit n (word_of_int h :: 32 word))"

fun hashLoop :: "int \<Rightarrow> jsstring \<Rightarrow> int" where
  "hashLoop h [] = h"
| "hashLoop h (c # cs) = hashLoop (toInt32 (shiftLeft h 5 - h + uint c)) cs"

definition hashString :: "jsstring \<Rightarrow> int" where
  "hashString s = \<bar>hashLoop 0 s\<bar>"

text \<open>
  The reference algorithm as the specification words it: for each character
  \<open>h = h * 31 + charCode\<close>, wrapped to signed 32 bits, and the absolute value at the end.
  It is written on the integers with the wrap-around spelled out.
\<close>

definition wrapSigned32 :: "int \<Rightarrow> int" where
  "wrapSigned32 x = (x + 2 ^ 31) mod 2 ^ 32 - 2 ^ 31"

fun rollingHash :: "int \<Rightarrow> jsstring \<Rightarrow> int" where
  "rollingHash h [] = h"
| "rollingHash h (c # cs) = rollingHash (wrapSigned32 (h * 31 + uint c)) cs"

definition referenceHash :: "jsstring \<Rightarrow> int" where
  "referenceHash s = \<bar>rollingHash 0 s\<bar>"

text \<open>
  The handler of \<open>GET /api/fortune\<close>. What the runtime supplies is an input: the
  user-agent header and the client address (either may be missing), the date string that
  \<open>getTodayDate(tz)\<close> returns, the clock readings of the countdown and the calendar of
  the server's time zone.

  A clock reading is the time value of a \<open>Date\<close>, in milliseconds. \<open>tz_local\<close> is
  \<open>new Date(now.toLocaleString('en-US', {timeZone: tz}))\<close>, a whole number of seconds, or
  \<open>None\<close> when \<open>toLocaleString\<close> throws for the time zone; \<open>sys_now\<close> is the \<open>new Date()\<close> of
  the \<open>catch\<close> branch. \<open>setHours24 clock t\<close> is the time value that
  \<open>setHours(24,0,0,0)\<close> gives a \<open>Date\<close> of time value \<open>t\<close>: the next midnight of the
  server's time zone, 24 hours after the last one on most days, 23 or 25 hours on a day
  of a daylight-saving change.
\<close>

record classic_request =
  user_agent :: "jsstring option"
  ip :: "jsstring option"

record classic_clock =
  today :: jsstring
  tz_local :: "int option"
  sys_now :: int
  setHours24 :: "int \<Rightarrow> int"

datatype source = Classic | Cache | OpenAI | Fallback

record classic_response =
  fortune_text :: "jsstring option"
  secondsUntilNext :: int
  source :: source

definition seedOf :: "jsstring \<Rightarrow> jsstring \<Rightarrow> jsstring \<Rightarrow> jsstring" where
  "seedOf day addr ua = day @ [BAR] @ addr @ [BAR] @ ua"

definition fortuneIndex :: "jsstring \<Rightarrow> int" where
  \<comment> \<open>\<open>%\<close> takes the sign of the dividend\<close>
  "fortuneIndex seed = hashString seed smod int (length fortunes)"

definition countdown :: "(int \<Rightarrow> int) \<Rightarrow> int \<Rightarrow> int" where
  \<comment> \<open>\<open>Math.max(0, Math.floor((next - local)/1000))\<close> with \<open>next\<close> the next midnight\<close>
  "countdown nextMidnight t = max 0 ((nextMidnight t - t) div 1000)"

definition reading :: "classic_clock \<Rightarrow> int" where
  \<comment> \<open>the \<open>Date\<close> the countdown starts from: \<open>local\<close>, or \<open>now\<close> in the \<open>catch\<close> branch\<close>
  "reading clock = (case tz_local clock of Some local \<Rightarrow> local | None \<Rightarrow> sys_now clock)"

definition fortuneHandler :: "classic_clock \<Rightarrow> classic_request \<Rightarrow> classic_response" where
  "fortuneHandler clock req =
     (let ua = (case user_agent req of Some u \<Rightarrow> u | None \<Rightarrow> []);
          addr = (case ip req of Some a \<Rightarrow> a | None \<Rightarrow> []);
          idx = fortuneIndex (seedOf (today clock) addr ua)
      in \<lparr> fortune_text =
             (if 0 \<le> idx \<and> idx < int (length fortunes) then Some (fortunes ! nat idx) else None),
           secondsUntilNext =
             (case tz_local clock of Some local \<Rightarrow> countdown (setHours24 clock) local
              | None \<Rightarrow> countdown (setHours24 clock) (sys_now clock)),
           source = Classic \<rparr>)"

section \<open>AI endpoint\<close>

subsection \<open>Formatting\<close>

definition truncateLine :: "int \<Rightarrow> jsstring \<Rightarrow> jsstring" where
  "truncateLine maxPerLine s =
     (if int (length s) > maxPerLine then sliceTo (maxPerLine - 1) s @ [ELLIPSIS] else s)"

text \<open>
  \<open>formatFortune\<close> on a string. Its first step \<open>String(text || '')\<close> leaves a string
  as it is; for any other value it is \<open>stringOfText\<close> below, where the handler calls it.
\<close>

definition formatFortune :: "jsstring \<Rightarrow> int \<Rightarrow> int \<Rightarrow> jsstring" where
  "formatFortune text lines maxPerLine =
     (let cleaned = trim (filter (\<lambda>c. c \<noteq> CR) text)
      in if cleaned = [] then []
         else joinWith LF (map (truncateLine maxPerLine)
                (sliceTo lines (filter (\<lambda>s. s \<noteq> []) (map trim (splitOn LF cleaned))))))"

definition sourceLines :: "jsstring \<Rightarrow> jsstring list" where
  \<comment> \<open>the lines \<open>formatFortune\<close> has before it counts and truncates them\<close>
  "sourceLines text =
     filter (\<lambda>s. s \<noteq> []) (map trim (splitOn LF (trim (filter (\<lambda>c. c \<noteq> CR) text))))"


subsection \<open>Values\<close>

text \<open>
  The body comes from \<open>JSON.parse\<close> and a cookie \<open>j:<json>\<close> is handed on by the cookie
  parser as the value it encodes, so a field can hold any JSON value. The handler only
  tests such a value for truthiness, converts it to a string (in \<open>parseInt\<close>, in
  \<open>RegExp.test\<close>, in a template literal, in \<open>String(...)\<close>), compares it with \<open>===\<close> or
  calls \<open>slice\<close> on it. A number is therefore kept as the string \<open>String(n)\<close>, which is
  \<open>"0"\<close> exactly for the two zeros; an object as its own properties.
\<close>

datatype failure = MissingApiKey | ProviderError | TypeError

datatype jsvalue =
    JNull
  | JBool bool
  | JNum jsstring
  | JStr jsstring
  | JArr "jsvalue list"
  | JObj "(jsstring \<times> jsvalue) list"

fun truthy :: "jsvalue \<Rightarrow> bool" where
  "truthy JNull = False"
| "truthy (JBool b) = b"
| "truthy (JNum s) = (s \<noteq> js ''0'')"
| "truthy (JStr s) = (s \<noteq> [])"
| "truthy (JArr xs) = True"
| "truthy (JObj kvs) = True"

definition orEmpty :: "jsvalue option \<Rightarrow> jsvalue" where
  \<comment> \<open>\<open>x || ''\<close>; \<open>None\<close> is \<open>undefined\<close>\<close>
  "orEmpty x = (case x of Some v \<Rightarrow> if truthy v then v else JStr [] | None \<Rightarrow> JStr [])"

text \<open>
  \<open>ToString\<close>. An array joins its elements with commas, \<open>null\<close> counting as the empty
  string. An object without an own \<open>toString\<close> property inherits the one that answers
  \<open>[object Object]\<close>; with an own one, which as a JSON value is not callable, neither it nor
  \<open>valueOf\<close> yields a primitive and the conversion throws a TypeError.
\<close>

fun toStringJS :: "jsvalue \<Rightarrow> failure + jsstring"
  and joinJS :: "jsvalue list \<Rightarrow> failure + jsstring" where
  "toStringJS JNull = Inr (js ''null'')"
| "toStringJS (JBool b) = Inr (if b then js ''true'' else js ''false'')"
| "toStringJS (JNum s) = Inr s"
| "toStringJS (JStr s) = Inr s"
| "toStringJS (JArr xs) = joinJS xs"
| "toStringJS (JObj kvs) =
     (if js ''toString'' \<in> set (map fst kvs) then Inl TypeError
      else Inr (js ''[object Object]''))"
| "joinJS [] = Inr []"
| "joinJS (x # xs) =
     (case (if x = JNull then Inr [] else toStringJS x) of
        Inl err \<Rightarrow> Inl err
      | Inr s \<Rightarrow>
          if xs = [] then Inr s
          else (case joinJS xs of Inl err \<Rightarrow> Inl err | Inr t \<Rightarrow> Inr (s @ [COMMA] @ t)))"

fun sliceable :: "jsvalue \<Rightarrow> bool" where
  \<comment> \<open>whether \<open>v.slice(0,8)\<close> is a call of a function: strings and arrays have the method\<close>
  "sliceable (JStr s) = True"
| "sliceable (JArr xs) = True"
| "sliceable v = False"

definition isDigit :: "code_unit \<Rightarrow> bool" where
  "isDigit c \<longleftrightarrow> 0x30 \<le> c \<and> c \<le> 0x39"

definition digitsValue :: "jsstring \<Rightarrow> int" where
  "digitsValue ds = foldl (\<lambda>a c. a * 10 + (uint c - 48)) 0 ds"

definition parseInt10 :: "jsstring \<Rightarrow> int option" where
  \<comment> \<open>\<open>parseInt(s, 10)\<close>: white space, a sign, the longest run of digits; \<open>None\<close> is \<open>NaN\<close>\<close>
  "parseInt10 s =
     (let t = dropWhile isWhiteSpace s;
          negative = (t \<noteq> [] \<and> hd t = HYPHEN);
          u = (if t \<noteq> [] \<and> (hd t = HYPHEN \<or> hd t = 0x2B) then tl t else t);
          ds = takeWhile isDigit u
      in if ds = [] then None
         else Some (if negative then - digitsValue ds else digitsValue ds))"

subsection \<open>Request, cache and the outside world\<close>

text \<open>
  The four fields of the body the handler reads and the cookie, each a JSON value or
  absent. \<open>parseInt\<close> returns a double; the model keeps the exact integer, which is on the
  same side of 0, 1 and 2, so the clamped line count is the same.
\<close>

record request =
  body_lang :: "jsvalue option"
  body_theme :: "jsvalue option"
  body_lines :: "jsvalue option"
  body_localDate :: "jsvalue option"
  cookie_fcid :: "jsvalue option"

record entry =
  fortune :: jsstring
  expiresAt :: int

type_synonym cache = "jsstring \<rightharpoonup> entry"

text \<open>
  What the provider call resolves with: an object whose \<open>choices\<close>, first choice,
  \<open>message\<close> and \<open>content\<close> may each be missing, or no object at all (reading
  \<open>rsp.choices\<close> then throws a TypeError).
\<close>

datatype message = Message "jsvalue option"
datatype choice = Choice "message option"
datatype completion = NoObject | Completion "choice list option"

datatype prompt = TurkishPrompt | EnglishPrompt int

text \<open>
  One request sees: the clock when it tests the entry's expiry and the clock when it
  stores a new entry, the random bytes of a new user id, the credential of the process
  and what the provider does with a prompt (it rejects, or resolves with a completion).
\<close>

record env =
  now_lookup :: int
  now_store :: int
  random_id :: jsstring
  api_key :: "jsstring option"
  create :: "prompt \<Rightarrow> failure + completion"

datatype json = AiJson jsstring bool source | ErrorJson jsstring

record response =
  status :: nat
  json :: json

datatype event =
    SetCookie jsstring
  | CacheGet jsstring
  | CacheSet jsstring entry
  | Generate jsstring int
  | ProviderRequest prompt

record outcome =
  response :: response
  cache_after :: cache
  events :: "event list"

record pending =
  \<comment> \<open>what a request holds while it awaits the provider\<close>
  p_userId :: jsvalue
  p_key :: jsstring
  p_lines :: int

subsection \<open>Validation\<close>

datatype atom = Digit | Lit code_unit

fun matchAtom :: "atom \<Rightarrow> code_unit \<Rightarrow> bool" where
  "matchAtom Digit c = (0x30 \<le> c \<and> c \<le> 0x39)"
| "matchAtom (Lit a) c = (c = a)"

fun matchSeq :: "atom list \<Rightarrow> jsstring \<Rightarrow> bool" where
  \<comment> \<open>a sequence of atoms anchored at both ends, \<open>^...$\<close>\<close>
  "matchSeq [] [] = True"
| "matchSeq (a # as) (c # cs) = (matchAtom a c \<and> matchSeq as cs)"
| "matchSeq _ _ = False"

definition localDatePattern :: "atom list" where
  "localDatePattern =
     [Digit, Digit, Digit, Digit, Lit HYPHEN, Digit, Digit, Lit HYPHEN, Digit, Digit]"

definition testLocalDate :: "request \<Rightarrow> failure + bool" where
  \<comment> \<open>\<open>/^\d{4}-\d{2}-\d{2}$/.test(localDate || '')\<close>; \<open>test\<close> converts its argument\<close>
  "testLocalDate req =
     (case toStringJS (orEmpty (body_localDate req)) of
        Inl err \<Rightarrow> Inl err
      | Inr s \<Rightarrow> Inr (matchSeq localDatePattern s))"

subsection \<open>The handler\<close>

definition langOf :: "request \<Rightarrow> jsstring" where
  "langOf req = (if body_lang req = Some (JStr (js ''tr'')) then js ''tr'' else js ''en'')"

definition themeOf :: "request \<Rightarrow> jsvalue" where
  "themeOf req = (case body_theme req of Some t \<Rightarrow> t | None \<Rightarrow> JStr (js ''relationship''))"

definition clampLines :: "int option \<Rightarrow> int" where
  \<comment> \<open>\<open>Math.min(Math.max(parsed || 1, 1), 2)\<close>\<close>
  "clampLines parsed =
     min (max (case parsed of Some n \<Rightarrow> if n = 0 then 1 else n | None \<Rightarrow> 1) 1) 2"

definition linesOf :: "request \<Rightarrow> failure + int" where
  \<comment> \<open>\<open>parseInt(lines, 10)\<close> converts \<open>lines\<close>, 2 when absent, to a string first\<close>
  "linesOf req =
     (case toStringJS (case body_lines req of Some v \<Rightarrow> v | None \<Rightarrow> JNum (js ''2'')) of
        Inl err \<Rightarrow> Inl err
      | Inr s \<Rightarrow> Inr (clampLines (parseInt10 s)))"

definition localDateOf :: "request \<Rightarrow> jsvalue" where
  \<comment> \<open>\<open>localDate\<close> inside the template literal of the key\<close>
  "localDateOf req =
     (case body_localDate req of Some d \<Rightarrow> d | None \<Rightarrow> JStr (js ''undefined''))"

definition getOrSetUserId :: "env \<Rightarrow> request \<Rightarrow> jsvalue \<times> event list" where
  "getOrSetUserId env req =
     (case cookie_fcid req of
        Some c \<Rightarrow>
          if truthy c then (c, [])
          else (JStr (random_id env), [SetCookie (random_id env)])
      | None \<Rightarrow> (JStr (random_id env), [SetCookie (random_id env)]))"

definition cacheKey :: "jsstring \<Rightarrow> jsstring \<Rightarrow> jsstring \<Rightarrow> int \<Rightarrow> jsstring \<Rightarrow> jsstring" where
  "cacheKey userId lang theme lines localDate =
     userId @ [COLON] @ lang @ [COLON] @ theme @ [COLON] @ showInt lines @ [COLON] @ localDate"

definition keyOf :: "jsvalue \<Rightarrow> request \<Rightarrow> int \<Rightarrow> failure + jsstring" where
  \<comment> \<open>the template literal converts \<open>userId\<close>, \<open>theme\<close> and \<open>localDate\<close>, in this order\<close>
  "keyOf userId req lines =
     (case toStringJS userId of
        Inl err \<Rightarrow> Inl err
      | Inr u \<Rightarrow>
          (case toStringJS (themeOf req) of
             Inl err \<Rightarrow> Inl err
           | Inr t \<Rightarrow>
               (case toStringJS (localDateOf req) of
                  Inl err \<Rightarrow> Inl err
                | Inr d \<Rightarrow> Inr (cacheKey u (langOf req) t lines d))))"

definition requestKey :: "env \<Rightarrow> request \<Rightarrow> failure + jsstring" where
  "requestKey env req =
     (case linesOf req of
        Inl err \<Rightarrow> Inl err
      | Inr lines \<Rightarrow> keyOf (fst (getOrSetUserId env req)) req lines)"

definition requestTuple ::
  "env \<Rightarrow> request \<Rightarrow> jsvalue \<times> jsstring \<times> jsvalue \<times> (failure + int) \<times> jsvalue" where
  "requestTuple env req =
     (fst (getOrSetUserId env req), langOf req, themeOf req, linesOf req, localDateOf req)"

definition buildPrompt :: "jsstring \<Rightarrow> int \<Rightarrow> prompt" where
  "buildPrompt lang lines = (if lang = js ''tr'' then TurkishPrompt else EnglishPrompt lines)"

fun firstContent :: "completion \<Rightarrow> failure + jsvalue" where
  \<comment> \<open>\<open>rsp.choices?.[0]?.message?.content || ''\<close>\<close>
  "firstContent NoObject = Inl TypeError"
| "firstContent (Completion (Some (Choice (Some (Message content)) # _))) = Inr (orEmpty content)"
| "firstContent (Completion _) = Inr (JStr [])"

definition generateWithOpenAI :: "env \<Rightarrow> jsstring \<Rightarrow> int \<Rightarrow> (failure + jsvalue) \<times> event list" where
  "generateWithOpenAI env lang lines =
     (case api_key env of
        None \<Rightarrow> (Inl MissingApiKey, [])
      | Some k \<Rightarrow>
          if k = [] then (Inl MissingApiKey, [])
          else (case create env (buildPrompt lang lines) of
                  Inl e \<Rightarrow> (Inl e, [ProviderRequest (buildPrompt lang lines)])
                | Inr rsp \<Rightarrow> (firstContent rsp, [ProviderRequest (buildPrompt lang lines)])))"

definition stringOfText :: "jsvalue \<Rightarrow> failure + jsstring" where
  \<comment> \<open>\<open>String(text || '')\<close>, the first step of \<open>formatFortune\<close>; a string stays as it is\<close>
  "stringOfText text = toStringJS (orEmpty (Some text))"

definition ttlMsFromLocalDate :: "jsvalue \<Rightarrow> int" where
  "ttlMsFromLocalDate localDate = 26 * 3600 * 1000"

definition fallbackText :: "request \<Rightarrow> jsstring" where
  "fallbackText req =
     (if body_lang req = Some (JStr (js ''tr''))
      then js ''Bug'' @ [0xFC] @ js ''n a'' @ [0xE7, 0x131] @ js ''k konu'' @ [0x15F]
           @ js ''mak ba'' @ [0x11F, 0x131] @ js ''n'' @ [0x131] @ js ''z'' @ [0x131]
           @ js '' onarabilir.''
      else js ''Speak plainly today; repair begins there.'')"

text \<open>
  The body of the \<open>try\<close> block, in the two parts that the \<open>await\<close> separates. Each part
  runs without interruption; a thrown error is the value \<open>Inl\<close>, returned together with
  the effects that came before it.

  The first part reads the body, validates, finds the user, builds the key and looks it
  up. It does not write the cache. It ends with a response, with an error, or waiting for
  the provider.
\<close>

definition lookupPhase ::
  "env \<Rightarrow> request \<Rightarrow> cache \<Rightarrow> (failure + response + pending) \<times> event list" where
  "lookupPhase env req cache =
     (case linesOf req of
        Inl err \<Rightarrow> (Inl err, [])
      | Inr lines \<Rightarrow>
          (case testLocalDate req of
             Inl err \<Rightarrow> (Inl err, [])
           | Inr matches \<Rightarrow>
               if \<not> matches
               then (Inr (Inl \<lparr> status = 400,
                                 json = ErrorJson (js ''localDate (YYYY-MM-DD) is required'') \<rparr>),
                     [])
               else (let userId = fst (getOrSetUserId env req);
                         cookie = snd (getOrSetUserId env req)
                     in case keyOf userId req lines of
                          Inl err \<Rightarrow> (Inl err, cookie)
                        | Inr key \<Rightarrow>
                            (let waiting = \<lparr> p_userId = userId, p_key = key, p_lines = lines \<rparr>
                             in case cache key of
                                  Some cached \<Rightarrow>
                                    if expiresAt cached > now_lookup env
                                    then (if sliceable userId
                                          then (Inr (Inl \<lparr> status = 200,
                                                  json = AiJson (fortune cached) True Cache \<rparr>),
                                                cookie @ [CacheGet key])
                                          else (Inl TypeError, cookie @ [CacheGet key]))
                                    else (Inr (Inr waiting), cookie @ [CacheGet key])
                                | None \<Rightarrow> (Inr (Inr waiting), cookie @ [CacheGet key])))))"

text \<open>
  The second part, from the provider call on, on the cache as it is when the request
  resumes: it formats the text, stores the entry and answers. The log line after the
  store calls \<open>userId.slice\<close>; when that throws, the entry is already in the cache.
\<close>

definition generationPath ::
  "env \<Rightarrow> request \<Rightarrow> pending \<Rightarrow> cache \<Rightarrow> event list
     \<Rightarrow> (failure + response) \<times> cache \<times> event list" where
  "generationPath env req waiting cache earlier =
     (let called = snd (generateWithOpenAI env (langOf req) (p_lines waiting));
          evs = earlier @ [Generate (langOf req) (p_lines waiting)] @ called
      in case fst (generateWithOpenAI env (langOf req) (p_lines waiting)) of
           Inl err \<Rightarrow> (Inl err, cache, evs)
         | Inr raw \<Rightarrow>
             (case stringOfText raw of
                Inl err \<Rightarrow> (Inl err, cache, evs)
              | Inr s \<Rightarrow>
                  (let text = formatFortune s (p_lines waiting) 140
                   in if text = []
                      then (Inr \<lparr> status = 502, json = ErrorJson (js ''Empty AI result'') \<rparr>,
                            cache, evs)
                      else (let stored =
                                  \<lparr> fortune = text,
                                    expiresAt = now_store env
                                      + ttlMsFromLocalDate (localDateOf req) \<rparr>
                            in if sliceable (p_userId waiting)
                               then (Inr \<lparr> status = 200, json = AiJson text False OpenAI \<rparr>,
                                     cache(p_key waiting \<mapsto> stored),
                                     evs @ [CacheSet (p_key waiting) stored])
                               else (Inl TypeError,
                                     cache(p_key waiting \<mapsto> stored),
                                     evs @ [CacheSet (p_key waiting) stored])))))"

definition tryBody ::
  "env \<Rightarrow> request \<Rightarrow> cache \<Rightarrow> (failure + response) \<times> cache \<times> event list" where
  \<comment> \<open>the whole \<open>try\<close> block of a request that nothing interrupts\<close>
  "tryBody env req cache =
     (case lookupPhase env req cache of
        (Inl err, evs) \<Rightarrow> (Inl err, cache, evs)
      | (Inr (Inl answer), evs) \<Rightarrow> (Inr answer, cache, evs)
      | (Inr (Inr waiting), evs) \<Rightarrow> generationPath env req waiting cache evs)"

definition catchAll ::
  "request \<Rightarrow> (failure + response) \<times> cache \<times> event list \<Rightarrow> outcome" where
  \<comment> \<open>the \<open>catch\<close> block: any error becomes the fallback line, with status 200\<close>
  "catchAll req attempt =
     (case attempt of
        (Inl err, cache, evs) \<Rightarrow>
          \<lparr> response = \<lparr> status = 200, json = AiJson (fallbackText req) False Fallback \<rparr>,
            cache_after = cache, events = evs \<rparr>
      | (Inr answer, cache, evs) \<Rightarrow>
          \<lparr> response = answer, cache_after = cache, events = evs \<rparr>)"

definition fortuneAiHandler :: "env \<Rightarrow> request \<Rightarrow> cache \<Rightarrow> outcome" where
  "fortuneAiHandler env req cache = catchAll req (tryBody env req cache)"

subsection \<open>Requests in flight\<close>

text \<open>
  Requests overlap: while one awaits the provider, others run. A turn of the event loop
  is a request served from start to end (\<open>Whole\<close>), or a request that resumes after its
  provider call on the cache as it is by then (\<open>Resume\<close>); first parts alone change
  nothing and are left out. The run keeps, next to the cache, the time of birth of what
  each key holds: the clock reading of the turn that last changed it.
\<close>

datatype turn = Whole | Resume pending

definition turnOutcome :: "env \<Rightarrow> request \<Rightarrow> turn \<Rightarrow> cache \<Rightarrow> outcome" where
  "turnOutcome env req t cache =
     (case t of
        Whole \<Rightarrow> fortuneAiHandler env req cache
      | Resume waiting \<Rightarrow> catchAll req (generationPath env req waiting cache []))"

definition restamp :: "int \<Rightarrow> cache \<Rightarrow> cache \<Rightarrow> (jsstring \<rightharpoonup> int) \<Rightarrow> (jsstring \<rightharpoonup> int)" where
  "restamp now old new born = (\<lambda>k. if new k = old k then born k else Some now)"

fun runTurns ::
  "cache \<times> (jsstring \<rightharpoonup> int) \<Rightarrow> (env \<times> request \<times> turn) list \<Rightarrow> cache \<times> (jsstring \<rightharpoonup> int)" where
  "runTurns state [] = state"
| "runTurns (cache, born) ((env, req, t) # rest) =
     runTurns (cache_after (turnOutcome env req t cache),
               restamp (now_store env) cache (cache_after (turnOutcome env req t cache)) born)
       rest"

section \<open>Sample inputs\<close>

text \<open>Concrete requests and environments, on which the theorems below are run.\<close>

definition sampleCompletion :: "jsvalue \<Rightarrow> failure + completion" where
  "sampleCompletion content = Inr (Completion (Some [Choice (Some (Message (Some content)))]))"

definition sampleEnv :: "int \<Rightarrow> jsstring option \<Rightarrow> failure + completion \<Rightarrow> env" where
  "sampleEnv t credential result =
     \<lparr> now_lookup = t, now_store = t, random_id = js ''0123456789abcdef0123456789abcdef'',
       api_key = credential, create = (\<lambda>_. result) \<rparr>"

definition sampleRequest ::
  "jsvalue option \<Rightarrow> jsvalue option \<Rightarrow> jsvalue option \<Rightarrow> request" where
  "sampleRequest cookie theme localDate =
     \<lparr> body_lang = Some (JStr (js ''en'')), body_theme = theme,
       body_lines = Some (JNum (js ''2'')), body_localDate = localDate,
       cookie_fcid = cookie \<rparr>"

definition sampleText :: jsstring where
  "sampleText = js ''Speak warmly.'' @ [LF] @ js ''Trust grows slowly.''"

definition sampleLines :: jsstring where
  "sampleLines =
     js '' Speak warmly.  '' @ [CR, LF, LF] @ js ''  Trust grows slowly. '' @ [LF] @ js ''third''"

definition otherText :: jsstring where
  "otherText = js ''Listen first.''"

definition oddObject :: jsvalue where
  \<comment> \<open>\<open>{"toString": 1}\<close>\<close>
  "oddObject = JObj [(js ''toString'', JNum (js ''1''))]"

definition firstEnv :: env where
  "firstEnv = sampleEnv 1000 (Some (js ''sk-test'')) (sampleCompletion (JStr sampleText))"

definition laterEnv :: env where
  \<comment> \<open>four seconds later, with a provider that would fail\<close>
  "laterEnv = sampleEnv 5000 (Some (js ''sk-test'')) (Inl ProviderError)"

definition otherEnv :: env where
  \<comment> \<open>four seconds later, with a provider that answers another text\<close>
  "otherEnv = sampleEnv 5000 (Some (js ''sk-test'')) (sampleCompletion (JStr otherText))"

definition keylessEnv :: env where
  "keylessEnv = sampleEnv 1000 None (sampleCompletion (JStr sampleText))"

definition blankEnv :: env where
  "blankEnv =
     sampleEnv 1000 (Some (js ''sk-test'')) (sampleCompletion (JStr [0x20, CR, LF, 0x20]))"

definition oddTextEnv :: env where
  "oddTextEnv = sampleEnv 1000 (Some (js ''sk-test'')) (sampleCompletion oddObject)"

definition firstRequest :: request where
  "firstRequest =
     sampleRequest (Some (JStr (js ''u1''))) None (Some (JStr (js ''2024-01-01'')))"

definition slashRequest :: request where
  "slashRequest =
     sampleRequest (Some (JStr (js ''u1''))) None (Some (JStr (js ''2024/01/01'')))"

definition numericRequest :: request where
  \<comment> \<open>the cookie \<open>fcid=j:123\<close>, which the cookie parser hands on as the number 123\<close>
  "numericRequest =
     sampleRequest (Some (JNum (js ''123''))) None (Some (JStr (js ''2024-01-01'')))"

definition oddLinesRequest :: request where
  \<comment> \<open>the body \<open>{"lines": {"toString": 1}}\<close>, no cookie\<close>
  "oddLinesRequest =
     \<lparr> body_lang = None, body_theme = None, body_lines = Some oddObject,
       body_localDate = None, cookie_fcid = None \<rparr>"

definition oddDateRequest :: request where
  \<comment> \<open>the body \<open>{"localDate": {"toString": 1}}\<close>, no cookie\<close>
  "oddDateRequest =
     \<lparr> body_lang = None, body_theme = None, body_lines = None,
       body_localDate = Some oddObject, cookie_fcid = None \<rparr>"

definition oddThemeRequest :: request where
  "oddThemeRequest =
     sampleRequest (Some (JStr (js ''u1''))) (Some oddObject) (Some (JStr (js ''2024-01-01'')))"

definition colonRequestA :: request where
  "colonRequestA =
     sampleRequest (Some (JStr (js ''a:en:b''))) (Some (JStr (js ''c'')))
       (Some (JStr (js ''2024-01-01'')))"

definition colonRequestB :: request where
  "colonRequestB =
     sampleRequest (Some (JStr (js ''a''))) (Some (JStr (js ''b:en:c'')))
       (Some (JStr (js ''2024-01-01'')))"

definition firstKey :: jsstring where
  "firstKey = js ''u1:en:relationship:2:2024-01-01''"

definition firstWaiting :: pending where
  \<comment> \<open>\<open>firstRequest\<close> after its first part found no entry\<close>
  "firstWaiting = \<lparr> p_userId = JStr (js ''u1''), p_key = firstKey, p_lines = 2 \<rparr>"

definition utcDays :: "int \<Rightarrow> int" where
  \<comment> \<open>the calendar of a server on UTC: every day has 24 hours\<close>
  "utcDays t = (t div 86400000 + 1) * 86400000"

definition longDay :: "int \<Rightarrow> int" where
  \<comment> \<open>a calendar whose day from 0 on has 25 hours, as when clocks are set back\<close>
  "longDay t =
     (if t < 0 then (t div 86400000 + 1) * 86400000
      else if t < 90000000 then 90000000
      else 90000000 + ((t - 90000000) div 86400000 + 1) * 86400000)"

definition midnightClock :: classic_clock where
  "midnightClock =
     \<lparr> today = js ''2024-01-01'', tz_local = Some 0, sys_now = 0, setHours24 = utcDays \<rparr>"

definition longDayClock :: classic_clock where
  "longDayClock =
     \<lparr> today = js ''2024-11-03'', tz_local = Some 0, sys_now = 0, setHours24 = longDay \<rparr>"

definition anyClient :: classic_request where
  "anyClient = \<lparr> user_agent = Some (js ''curl/8.0''), ip = Some (js ''127.0.0.1'') \<rparr>"

lemmas run_defs = fortuneAiHandler_def catchAll_def tryBody_def lookupPhase_def
  generationPath_def generateWithOpenAI_def testLocalDate_def orEmpty_def stringOfText_def
  localDatePattern_def getOrSetUserId_def cacheKey_def keyOf_def langOf_def themeOf_def
  linesOf_def clampLines_def parseInt10_def isDigit_def digitsValue_def localDateOf_def
  buildPrompt_def ttlMsFromLocalDate_def fallbackText_def showInt_def showNat.simps
  requestKey_def requestTuple_def turnOutcome_def restamp_def
  formatFortune_def trim_def isWhiteSpace_def sliceTo_def truncateLine_def js_def
  sampleCompletion_def sampleEnv_def sampleRequest_def sampleText_def sampleLines_def
  otherText_def oddObject_def firstEnv_def laterEnv_def otherEnv_def keylessEnv_def
  blankEnv_def oddTextEnv_def firstRequest_def slashRequest_def numericRequest_def
  oddLinesRequest_def oddDateRequest_def oddThemeRequest_def colonRequestA_def
  colonRequestB_def firstKey_def firstWaiting_def Let_def case_prod_beta

section \<open>The hash\<close>

lemma toInt32_wrap: "toInt32 x = wrapSigned32 x"
  by (simp add: toInt32_def wrapSigned32_def sint_sbintrunc'
      signed_take_bit_eq_take_bit_shift take_bit_eq_mod)

lemma shiftLeft_mult: "shiftLeft h n = wrapSigned32 (h * 2 ^ n)"
proof -
  have "push_bit n (word_of_int h :: 32 word) = word_of_int (h * 2 ^ n)"
    by (simp add: push_bit_eq_mult)
  then show ?thesis
    using toInt32_wrap [of "h * 2 ^ n"] by (simp add: shiftLeft_def toInt32_def)
qed

lemma wrapSigned32_cong:
  assumes "(x - y) mod 2 ^ 32 = 0"
  shows "wrapSigned32 x = wrapSigned32 y"
proof -
  from assms have "((x + 2 ^ 31) - (y + 2 ^ 31)) mod 2 ^ 32 = 0" by simp
  then have "(x + 2 ^ 31) mod 2 ^ 32 = (y + 2 ^ 31) mod (2 ^ 32 :: int)"
    by (metis mod_eq_dvd_iff mod_0_imp_dvd)
  then show ?thesis by (simp add: wrapSigned32_def)
qed

lemma wrapSigned32_diff: "(wrapSigned32 x - x) mod 2 ^ 32 = 0"
proof -
  have "wrapSigned32 x - x = (x + 2 ^ 31) mod 2 ^ 32 - (x + 2 ^ 31)"
    by (simp add: wrapSigned32_def)
  also have "\<dots> = - (2 ^ 32 * ((x + 2 ^ 31) div 2 ^ 32))"
    by (simp add: minus_mult_div_eq_mod [symmetric])
  finally show ?thesis by simp
qed

lemma wrapSigned32_range: "- (2 ^ 31) \<le> wrapSigned32 x \<and> wrapSigned32 x < 2 ^ 31"
proof -
  have "0 \<le> (x + 2 ^ 31) mod (2 ^ 32 :: int)" "(x + 2 ^ 31) mod (2 ^ 32 :: int) < 2 ^ 32"
    by simp_all
  then show ?thesis by (simp add: wrapSigned32_def)
qed

lemma hash_step: "toInt32 (shiftLeft h 5 - h + c) = wrapSigned32 (h * 31 + c)"
proof -
  have "shiftLeft h 5 - h + c - (h * 31 + c) = wrapSigned32 (h * 32) - h * 32"
    by (simp add: shiftLeft_mult)
  then have "(shiftLeft h 5 - h + c - (h * 31 + c)) mod 2 ^ 32 = 0"
    using wrapSigned32_diff [of "h * 32"] by (simp add: mult.commute)
  then show ?thesis
    by (simp only: toInt32_wrap wrapSigned32_cong)
qed

lemma hashLoop_rolling: "hashLoop h s = rollingHash h s"
  by (induction s arbitrary: h) (simp_all add: hash_step)

lemma hashLoop_range:
  "- (2 ^ 31) \<le> h \<Longrightarrow> h < 2 ^ 31 \<Longrightarrow> - (2 ^ 31) \<le> hashLoop h s \<and> hashLoop h s < 2 ^ 31"
proof (induction s arbitrary: h)
  case Nil
  then show ?case by simp
next
  case (Cons c cs)
  show ?case
    using Cons.IH [of "toInt32 (shiftLeft h 5 - h + uint c)"] wrapSigned32_range
    by (simp add: toInt32_wrap)
qed

text \<open>
  The sum the loop forms before \<open>h |= 0\<close> stays far below \<open>2^53\<close>, so the double
  arithmetic of the source is exact and the integers model it.
\<close>

lemma hash_step_exact:
  assumes "- (2 ^ 31) \<le> h" "h < 2 ^ 31"
  shows "\<bar>shiftLeft h 5 - h + uint (c :: code_unit)\<bar> < 2 ^ 53"
proof -
  have c: "uint c < 65536" using uint_bounded [of c] by simp
  have c0: "0 \<le> uint c" by simp
  have w: "- 2147483648 \<le> wrapSigned32 (h * 32)" "wrapSigned32 (h * 32) < 2147483648"
    using wrapSigned32_range [of "h * 32"] by simp_all
  have h: "- 2147483648 \<le> h" "h < 2147483648" using assms by simp_all
  have "\<bar>wrapSigned32 (h * 32) - h + uint c\<bar> < 9007199254740992"
    using c c0 w h by linarith
  then show ?thesis by (simp add: shiftLeft_mult)
qed

text \<open>
  C4. For every input string the implemented hash (shift by five, subtract, add the
  character code, \<open>|= 0\<close>, \<open>Math.abs\<close> at the end) computes exactly the reference
  algorithm of the specification: \<open>h = h * 31 + charCode\<close> wrapped to signed 32 bits at
  each step, and the absolute value of the final result.
\<close>

theorem hashString_refines_reference: "hashString s = referenceHash s"
  by (simp add: hashString_def referenceHash_def hashLoop_rolling)

text \<open>
  C3. For every seed string, so for every date, client address and user-agent, the
  index \<open>hashString(seed) % fortunes.length\<close> lies in \<open>[0, catalogLength)\<close>; the catalog is
  a fixed list of four entries, and the handler always answers with one of them.
\<close>

theorem fortune_index_in_range:
  "0 \<le> fortuneIndex seed \<and> fortuneIndex seed < int (length fortunes)
   \<and> length fortunes = 4
   \<and> fortuneIndex (seedOf day addr ua) \<in> {0 ..< int (length fortunes)}
   \<and> fortune_text (fortuneHandler clock req) \<in> Some ` set fortunes"
proof -
  have len: "length fortunes = 4" by (simp add: fortunes_def)
  have idx: "0 \<le> fortuneIndex s \<and> fortuneIndex s < int (length fortunes)" for s
  proof -
    have "0 \<le> hashString s" by (simp add: hashString_def)
    then have "fortuneIndex s = hashString s mod 4"
      by (simp add: fortuneIndex_def len signed_modulo_int_def sgn_if)
    then show ?thesis by (simp add: len)
  qed
  let ?s = "seedOf (today clock) (case ip req of Some a \<Rightarrow> a | None \<Rightarrow> [])
              (case user_agent req of Some u \<Rightarrow> u | None \<Rightarrow> [])"
  have "fortune_text (fortuneHandler clock req) = Some (fortunes ! nat (fortuneIndex ?s))"
    using idx [of ?s] by (simp add: fortuneHandler_def Let_def)
  moreover have "nat (fortuneIndex ?s) < length fortunes" using idx [of ?s] by linarith
  ultimately have "fortune_text (fortuneHandler clock req) \<in> Some ` set fortunes"
    by simp
  then show ?thesis using idx [of seed] idx [of "seedOf day addr ua"] len by simp
qed

section \<open>Formatting\<close>

lemma splitOn_nonempty: "splitOn sep s \<noteq> []"
  by (induction s) (simp_all split: list.split)

lemma splitOn_no_sep: "l \<in> set (splitOn sep s) \<Longrightarrow> sep \<notin> set l"
proof (induction s arbitrary: l)
  case Nil
  then show ?case by simp
next
  case (Cons c cs)
  obtain x xs where sp: "splitOn sep cs = x # xs"
    using splitOn_nonempty [of sep cs] by (cases "splitOn sep cs") auto
  show ?case
  proof (cases "c = sep")
    case True
    with Cons show ?thesis by auto
  next
    case False
    with Cons.prems sp have "l = c # x \<or> l \<in> set xs" by simp
    then show ?thesis
      using Cons.IH [of x] Cons.IH [of l] sp False by auto
  qed
qed

lemma splitOn_subset: "r \<in> set (splitOn sep s) \<Longrightarrow> set r \<subseteq> set s"
proof (induction s arbitrary: r)
  case Nil
  then show ?case by simp
next
  case (Cons c cs)
  obtain x xs where sp: "splitOn sep cs = x # xs"
    using splitOn_nonempty [of sep cs] by (cases "splitOn sep cs") auto
  show ?case
  proof (cases "c = sep")
    case True
    with Cons.prems have "r = [] \<or> r \<in> set (splitOn sep cs)" by simp
    then show ?thesis using Cons.IH [of r] by auto
  next
    case False
    with Cons.prems sp have "r = c # x \<or> r \<in> set xs" by simp
    then show ?thesis
      using Cons.IH [of x] Cons.IH [of r] sp by auto
  qed
qed

lemma splitOn_single: "sep \<notin> set l \<Longrightarrow> splitOn sep l = [l]"
  by (induction l) (auto split: list.split)

lemma splitOn_append: "sep \<notin> set l \<Longrightarrow> splitOn sep (l @ sep # r) = l # splitOn sep r"
  by (induction l) (auto split: list.split)

text \<open>Splitting undoes joining, when no line holds the separator.\<close>

lemma splitOn_joinWith:
  "ls \<noteq> [] \<Longrightarrow> list_all (\<lambda>l. sep \<notin> set l) ls \<Longrightarrow> splitOn sep (joinWith sep ls) = ls"
proof (induction sep ls rule: joinWith.induct)
  case (1 sep)
  then show ?case by simp
next
  case (2 sep l)
  then show ?case by (simp add: splitOn_single)
next
  case (3 sep l v va)
  then show ?case by (simp add: splitOn_append)
qed

lemma set_trim: "set (trim s) \<subseteq> set s"
proof -
  have "set (trim s) \<subseteq> set (rev (dropWhile isWhiteSpace s))"
    unfolding trim_def using set_dropWhileD by fastforce
  also have "\<dots> \<subseteq> set s" using set_dropWhileD by fastforce
  finally show ?thesis .
qed

lemma trim_Nil: "trim [] = []"
  by (simp add: trim_def)

lemma last_dropWhile_keep:
  assumes "dropWhile P xs \<noteq> []"
  shows "last (dropWhile P xs) = last xs"
proof -
  have "xs = takeWhile P xs @ dropWhile P xs" by simp
  then have "last xs = last (takeWhile P xs @ dropWhile P xs)" by simp
  also have "\<dots> = last (dropWhile P xs)" using assms by (simp only: last_append if_False)
  finally show ?thesis by simp
qed

lemma trim_ends:
  assumes "trim s \<noteq> []"
  shows "\<not> isWhiteSpace (hd (trim s)) \<and> \<not> isWhiteSpace (last (trim s))"
proof -
  let ?d = "dropWhile isWhiteSpace s"
  let ?e = "dropWhile isWhiteSpace (rev ?d)"
  from assms have e: "?e \<noteq> []" by (simp add: trim_def)
  have d: "?d \<noteq> []"
  proof
    assume "?d = []"
    then have "?e = []" by (simp only: rev.simps dropWhile.simps)
    with e show False by simp
  qed
  have "last (trim s) = hd ?e" using e by (simp add: trim_def last_rev)
  moreover have "\<not> isWhiteSpace (hd ?e)" using e by (rule hd_dropWhile)
  moreover have "hd (trim s) = last ?e" using e by (simp add: trim_def hd_rev)
  moreover have "last ?e = last (rev ?d)" using e by (rule last_dropWhile_keep)
  moreover have "last (rev ?d) = hd ?d" using d by (simp add: last_rev)
  moreover have "\<not> isWhiteSpace (hd ?d)" using d by (rule hd_dropWhile)
  ultimately show ?thesis by simp
qed

lemma sourceLines_member:
  assumes "l \<in> set (sourceLines text)"
  shows "l \<noteq> [] \<and> LF \<notin> set l \<and> CR \<notin> set l
         \<and> \<not> isWhiteSpace (hd l) \<and> \<not> isWhiteSpace (last l)"
proof -
  let ?cleaned = "trim (filter (\<lambda>c. c \<noteq> CR) text)"
  from assms obtain r
    where r: "r \<in> set (splitOn LF ?cleaned)" and l: "l = trim r" and ne: "l \<noteq> []"
    by (auto simp: sourceLines_def)
  have "set l \<subseteq> set r" using l set_trim by simp
  moreover have "LF \<notin> set r" using r by (rule splitOn_no_sep)
  moreover have "set r \<subseteq> set ?cleaned" using r by (rule splitOn_subset)
  moreover have "set ?cleaned \<subseteq> set (filter (\<lambda>c. c \<noteq> CR) text)" by (rule set_trim)
  moreover have "CR \<notin> set (filter (\<lambda>c. c \<noteq> CR) text)" by simp
  ultimately have "LF \<notin> set l" "CR \<notin> set l" by blast+
  then show ?thesis using ne trim_ends [of r] l by simp
qed

lemma sourceLines_empty:
  "trim (filter (\<lambda>c. c \<noteq> CR) text) = [] \<Longrightarrow> sourceLines text = []"
  by (simp add: sourceLines_def trim_Nil)

text \<open>The early return of the source for an empty cleaned text agrees with the chain.\<close>

lemma formatFortune_join:
  "formatFortune text n m = joinWith LF (map (truncateLine m) (sliceTo n (sourceLines text)))"
proof (cases "trim (filter (\<lambda>c. c \<noteq> CR) text) = []")
  case True
  then show ?thesis by (simp add: formatFortune_def sourceLines_empty sliceTo_def)
next
  case False
  then show ?thesis by (simp add: formatFortune_def sourceLines_def Let_def)
qed

lemma length_sliceTo: "0 \<le> n \<Longrightarrow> length (sliceTo n xs) = min (nat n) (length xs)"
  by (simp add: sliceTo_def)

lemma nth_sliceTo: "0 \<le> n \<Longrightarrow> i < length (sliceTo n xs) \<Longrightarrow> sliceTo n xs ! i = xs ! i"
  by (simp add: sliceTo_def)

lemma truncateLine_long: "length s > 140 \<Longrightarrow> truncateLine 140 s = take 139 s @ [ELLIPSIS]"
  by (simp add: truncateLine_def sliceTo_def)

lemma truncateLine_short: "length s \<le> 140 \<Longrightarrow> truncateLine 140 s = s"
  by (simp add: truncateLine_def)

lemma truncateLine_props:
  assumes "l \<noteq> []" "LF \<notin> set l" "CR \<notin> set l"
    "\<not> isWhiteSpace (hd l)" "\<not> isWhiteSpace (last l)"
  shows "truncateLine 140 l \<noteq> [] \<and> length (truncateLine 140 l) \<le> 140
         \<and> LF \<notin> set (truncateLine 140 l) \<and> CR \<notin> set (truncateLine 140 l)
         \<and> \<not> isWhiteSpace (hd (truncateLine 140 l))
         \<and> \<not> isWhiteSpace (last (truncateLine 140 l))"
proof (cases "length l > 140")
  case True
  then have t: "truncateLine 140 l = take 139 l @ [ELLIPSIS]" by (rule truncateLine_long)
  have "set (take 139 l) \<subseteq> set l" by (rule set_take_subset)
  moreover have "hd (take 139 l @ [ELLIPSIS]) = hd l" using assms(1) by (cases l) simp_all
  moreover have "\<not> isWhiteSpace ELLIPSIS" by (simp add: isWhiteSpace_def)
  ultimately show ?thesis using assms t by auto
next
  case False
  then have "truncateLine 140 l = l" by (simp add: truncateLine_short)
  then show ?thesis using assms False by simp
qed

text \<open>
  A negative count is no count of lines: \<open>slice(0, -1)\<close> drops the last line and keeps the
  others. The handler never passes one, see \<open>linesOf_range\<close>.
\<close>

lemma formatFortune_negative_count:
  "formatFortune (js ''a'' @ [LF] @ js ''b'' @ [LF] @ js ''c'') (- 1) 140 = js ''a'' @ [LF] @ js ''b''"
  by (simp add: formatFortune_def js_def trim_def isWhiteSpace_def sliceTo_def truncateLine_def)

lemma clampLines_range: "clampLines parsed = 1 \<or> clampLines parsed = 2"
  by (auto simp: clampLines_def split: option.splits)

lemma linesOf_range: "linesOf req = Inr n \<Longrightarrow> n = 1 \<or> n = 2"
  using clampLines_range by (auto simp: linesOf_def split: sum.splits)

text \<open>
  C5. For every input text and every requested line count \<open>n\<close> (a count, so not
  negative; the handler passes 1 or 2), \<open>formatFortune\<close> strips carriage returns, trims,
  splits at newlines, trims each line and drops the empty ones (these are
  \<open>sourceLines text\<close>), keeps the first \<open>n\<close> of them at most, replaces a line of more than
  140 code units by its first 139 followed by the ellipsis, and joins the lines with
  newlines. So the result read back line by line is a list \<open>out\<close> of at most \<open>n\<close> lines,
  none empty, none longer than 140, none with a carriage return or a newline inside, none
  with white space at either end, and line \<open>i\<close> of the result is line \<open>i\<close> of the source,
  truncated when it is too long.
\<close>

theorem formatFortune_shape:
  assumes "0 \<le> n"
  shows "\<exists>out. formatFortune text n 140 = joinWith LF out
     \<and> length out = min (nat n) (length (sourceLines text))
     \<and> (\<forall>i<length out.
           out ! i = (if length (sourceLines text ! i) > 140
                      then take 139 (sourceLines text ! i) @ [ELLIPSIS]
                      else sourceLines text ! i)
         \<and> out ! i \<noteq> [] \<and> length (out ! i) \<le> 140
         \<and> LF \<notin> set (out ! i) \<and> CR \<notin> set (out ! i)
         \<and> \<not> isWhiteSpace (hd (out ! i)) \<and> \<not> isWhiteSpace (last (out ! i)))
     \<and> (if out = [] then formatFortune text n 140 = []
         else splitOn LF (formatFortune text n 140) = out)"
proof -
  let ?src = "sourceLines text"
  let ?out = "map (truncateLine 140) (sliceTo n ?src)"
  have eq: "formatFortune text n 140 = joinWith LF ?out" by (rule formatFortune_join)
  have len: "length ?out = min (nat n) (length ?src)"
    using assms by (simp add: length_sliceTo)
  have each: "?out ! i = (if length (?src ! i) > 140
                          then take 139 (?src ! i) @ [ELLIPSIS] else ?src ! i)
         \<and> ?out ! i \<noteq> [] \<and> length (?out ! i) \<le> 140
         \<and> LF \<notin> set (?out ! i) \<and> CR \<notin> set (?out ! i)
         \<and> \<not> isWhiteSpace (hd (?out ! i)) \<and> \<not> isWhiteSpace (last (?out ! i))"
    if i: "i < length ?out" for i
  proof -
    from i have i': "i < length (sliceTo n ?src)" by simp
    then have isrc: "i < length ?src" using assms by (simp add: length_sliceTo)
    have nth: "?out ! i = truncateLine 140 (?src ! i)"
      using i' assms by (simp add: nth_sliceTo)
    have mem: "?src ! i \<in> set ?src" using isrc by simp
    have first: "truncateLine 140 (?src ! i) =
        (if length (?src ! i) > 140 then take 139 (?src ! i) @ [ELLIPSIS] else ?src ! i)"
      by (simp add: truncateLine_long truncateLine_short)
    have src: "?src ! i \<noteq> [] \<and> LF \<notin> set (?src ! i) \<and> CR \<notin> set (?src ! i)
         \<and> \<not> isWhiteSpace (hd (?src ! i)) \<and> \<not> isWhiteSpace (last (?src ! i))"
      using mem by (rule sourceLines_member)
    then have "truncateLine 140 (?src ! i) \<noteq> [] \<and> length (truncateLine 140 (?src ! i)) \<le> 140
         \<and> LF \<notin> set (truncateLine 140 (?src ! i)) \<and> CR \<notin> set (truncateLine 140 (?src ! i))
         \<and> \<not> isWhiteSpace (hd (truncateLine 140 (?src ! i)))
         \<and> \<not> isWhiteSpace (last (truncateLine 140 (?src ! i)))"
      by (intro truncateLine_props) simp_all
    with first show ?thesis unfolding nth by (rule conjI)
  qed
  have all: "list_all (\<lambda>l. LF \<notin> set l) ?out"
    unfolding list_all_length using each by blast
  have resplit: "if ?out = [] then formatFortune text n 140 = []
         else splitOn LF (formatFortune text n 140) = ?out"
    using splitOn_joinWith [OF _ all] eq by (cases "?out = []") simp_all
  show ?thesis
    using eq len each resplit by blast
qed

theorem formatFortune_shape_witness:
  "(0::int) \<le> 2 \<and> formatFortune sampleLines 2 140 = sampleText
   \<and> (\<exists>out. formatFortune sampleLines 2 140 = joinWith LF out \<and> length out = 2
         \<and> splitOn LF (formatFortune sampleLines 2 140) = out)"
proof -
  have h: "(0::int) \<le> 2" by simp
  have n: "length (sourceLines sampleLines) = 3"
    by (simp add: sourceLines_def run_defs)
  have v: "formatFortune sampleLines 2 140 = sampleText" by (simp add: run_defs)
  from formatFortune_shape [OF h, of sampleLines] obtain out
    where o: "formatFortune sampleLines 2 140 = joinWith LF out"
      "length out = min (nat 2) (length (sourceLines sampleLines))"
      "if out = [] then formatFortune sampleLines 2 140 = []
       else splitOn LF (formatFortune sampleLines 2 140) = out"
    by blast
  from o(2) n have l: "length out = 2" by simp
  then have "out \<noteq> []" by auto
  with o(3) have "splitOn LF (formatFortune sampleLines 2 140) = out" by simp
  with h v o(1) l show ?thesis by blast
qed


section \<open>The countdown\<close>

lemma secondsUntilNext_eq:
  "secondsUntilNext (fortuneHandler clock req) = countdown (setHours24 clock) (reading clock)"
  by (simp add: fortuneHandler_def reading_def Let_def split: option.splits)

lemma countdown_nonneg: "0 \<le> countdown nextMidnight t"
  by (simp add: countdown_def)

lemma countdown_le:
  assumes "nextMidnight t - t \<le> ahead"
  shows "countdown nextMidnight t \<le> max 0 (ahead div 1000)"
proof -
  from assms have "(nextMidnight t - t) div 1000 \<le> ahead div 1000"
    by (rule zdiv_mono1) simp
  then show ?thesis by (simp add: countdown_def max_def)
qed

text \<open>On a calendar of 24-hour days the countdown is a full day exactly at midnight.\<close>

lemma countdown_utcDays: "countdown utcDays t = (86400000 - t mod 86400000) div 1000"
proof -
  have "utcDays t - t = 86400000 - t mod 86400000"
    by (simp add: utcDays_def algebra_simps minus_mult_div_eq_mod [symmetric])
  moreover have "0 \<le> (86400000 - t mod 86400000) div 1000"
  proof -
    have "t mod 86400000 < 86400000" by simp
    then show ?thesis by simp
  qed
  ultimately show ?thesis by (simp add: countdown_def)
qed

lemma countdown_full_day: "countdown utcDays t = 86400 \<longleftrightarrow> t mod 86400000 = 0"
proof
  assume full: "countdown utcDays t = 86400"
  show "t mod 86400000 = 0"
  proof (rule ccontr)
    assume "t mod 86400000 \<noteq> 0"
    moreover have "0 \<le> t mod 86400000" by simp
    ultimately have "86400000 - t mod 86400000 \<le> 86399999" by simp
    then have "(86400000 - t mod 86400000) div 1000 \<le> 86399999 div (1000 :: int)"
      by (rule zdiv_mono1) simp
    then have "countdown utcDays t \<le> 86399" by (simp add: countdown_utcDays)
    with full show False by simp
  qed
next
  assume "t mod 86400000 = 0"
  then show "countdown utcDays t = 86400" by (simp add: countdown_utcDays)
qed

text \<open>
  C9, as the specification states it, fails twice over. At a reading of exactly midnight
  on a server with 24-hour days \<open>setHours(24,0,0,0)\<close> is a whole day ahead and the
  endpoint answers 86400. At the start of a 25-hour day, when the server's clocks are set
  back, it answers 90000. Neither is below 86400.
\<close>

theorem secondsUntilNext_midnight:
  "secondsUntilNext (fortuneHandler midnightClock anyClient) = 86400
   \<and> \<not> secondsUntilNext (fortuneHandler midnightClock anyClient) < 86400
   \<and> secondsUntilNext (fortuneHandler longDayClock anyClient) = 90000
   \<and> \<not> secondsUntilNext (fortuneHandler longDayClock anyClient) < 86400"
  by (simp add: secondsUntilNext_eq reading_def countdown_def midnightClock_def longDayClock_def
      utcDays_def longDay_def)

text \<open>
  C9, amended. For every request to the deterministic endpoint, with any time zone
  parameter (resolved or not) and any clock reading, \<open>secondsUntilNext\<close> is an integer
  that is at least 0 and at most the whole seconds from the reading to the next midnight
  of the server's time zone: whenever that midnight is no more than \<open>ahead\<close> milliseconds
  away, the answer is at most \<open>ahead div 1000\<close>, so at most 86400 on a day of 24 hours
  and at most 90000 on a day of 25.
\<close>

theorem secondsUntilNext_range:
  "0 \<le> secondsUntilNext (fortuneHandler clock req)
   \<and> (setHours24 clock (reading clock) - reading clock \<le> ahead
        \<longrightarrow> secondsUntilNext (fortuneHandler clock req) \<le> max 0 (ahead div 1000))"
  by (simp add: secondsUntilNext_eq countdown_nonneg countdown_le)

theorem secondsUntilNext_range_witness:
  "setHours24 midnightClock (reading midnightClock) - reading midnightClock \<le> 86400000
   \<and> 0 \<le> secondsUntilNext (fortuneHandler midnightClock anyClient)
   \<and> secondsUntilNext (fortuneHandler midnightClock anyClient) \<le> 86400
   \<and> setHours24 longDayClock (reading longDayClock) - reading longDayClock \<le> 90000000
   \<and> secondsUntilNext (fortuneHandler longDayClock anyClient) \<le> 90000"
proof -
  have h1: "setHours24 midnightClock (reading midnightClock) - reading midnightClock \<le> 86400000"
    by (simp add: reading_def midnightClock_def utcDays_def)
  have h2: "setHours24 longDayClock (reading longDayClock) - reading longDayClock \<le> 90000000"
    by (simp add: reading_def longDayClock_def longDay_def)
  from secondsUntilNext_range [of midnightClock anyClient 86400000]
    secondsUntilNext_range [of longDayClock anyClient 90000000] h1 h2
  show ?thesis by simp
qed

section \<open>Conversions\<close>

lemma toStringJS_JStr: "toStringJS (JStr s) = Inr s"
  by simp

lemma orEmpty_None: "orEmpty None = JStr []"
  by (simp add: orEmpty_def)

lemma matchSeq_Nil: "\<not> matchSeq localDatePattern []"
  by (simp add: localDatePattern_def)

lemma undefined_no_date: "\<not> matchSeq localDatePattern (js ''undefined'')"
  by (simp add: localDatePattern_def js_def)

text \<open>The pattern accepts exactly the strings of ten code units \<open>dddd-dd-dd\<close>.\<close>

lemma matchSeq_localDate_length: "matchSeq localDatePattern d \<Longrightarrow> length d = 10"
proof -
  have "matchSeq ps d \<Longrightarrow> length d = length ps" for ps
    by (induction ps d rule: matchSeq.induct) simp_all
  then show "matchSeq localDatePattern d \<Longrightarrow> length d = 10"
    by (fastforce simp: localDatePattern_def)
qed

text \<open>A request passes the test only with a truthy \<open>localDate\<close> that converts and matches.\<close>

lemma testLocalDate_True:
  assumes "testLocalDate req = Inr True"
  shows "\<exists>v s. body_localDate req = Some v \<and> truthy v \<and> toStringJS v = Inr s
           \<and> matchSeq localDatePattern s \<and> localDateOf req = v"
proof (cases "body_localDate req")
  case None
  with assms show ?thesis by (simp add: testLocalDate_def orEmpty_def matchSeq_Nil)
next
  case (Some v)
  show ?thesis
  proof (cases "truthy v")
    case False
    with Some assms show ?thesis by (simp add: testLocalDate_def orEmpty_def matchSeq_Nil)
  next
    case True
    with Some assms show ?thesis
      by (auto simp: testLocalDate_def orEmpty_def localDateOf_def split: sum.splits)
  qed
qed

text \<open>A string as \<open>localDate\<close> is tested as it is; an absent one fails the test.\<close>

lemma testLocalDate_string:
  "body_localDate req = Some (JStr d) \<Longrightarrow> testLocalDate req = Inr (matchSeq localDatePattern d)"
  by (cases "d = []") (simp_all add: testLocalDate_def orEmpty_def)

lemma testLocalDate_absent: "body_localDate req = None \<Longrightarrow> testLocalDate req = Inr False"
  by (simp add: testLocalDate_def orEmpty_def matchSeq_Nil)

section \<open>Validation\<close>

lemma lookupPhase_invalid:
  assumes "linesOf req = Inr n" "testLocalDate req = Inr False"
  shows "lookupPhase env req cache =
     (Inr (Inl \<lparr> status = 400,
                 json = ErrorJson (js ''localDate (YYYY-MM-DD) is required'') \<rparr>), [])"
  using assms by (simp add: lookupPhase_def)

text \<open>
  Where \<open>lines\<close> and \<open>localDate\<close> convert to strings, a missing or malformed \<open>localDate\<close>
  is answered 400 and nothing else happens.
\<close>

lemma handler_invalid:
  assumes "linesOf req = Inr n" "testLocalDate req = Inr False"
  shows "fortuneAiHandler env req cache =
     \<lparr> response = \<lparr> status = 400,
                      json = ErrorJson (js ''localDate (YYYY-MM-DD) is required'') \<rparr>,
       cache_after = cache, events = [] \<rparr>"
  using lookupPhase_invalid [OF assms]
  by (simp add: fortuneAiHandler_def tryBody_def catchAll_def)

lemma handler_slash:
  "fortuneAiHandler firstEnv slashRequest Map.empty =
     \<lparr> response = \<lparr> status = 400,
                      json = ErrorJson (js ''localDate (YYYY-MM-DD) is required'') \<rparr>,
       cache_after = Map.empty, events = [] \<rparr>"
  by (rule handler_invalid [where n = 2]) (simp_all add: run_defs)

text \<open>
  C2 holds of the code only where the conversions succeed. The body
  \<open>{"lines": {"toString": 1}}\<close> has no \<open>localDate\<close>, but \<open>parseInt(lines, 10)\<close> runs before
  the test, inside the \<open>try\<close> block, and throws; the body \<open>{"localDate": {"toString": 1}}\<close>
  makes the test itself throw. Both are answered 200 with the fallback line, not 400.
\<close>

theorem unconvertible_body_not_rejected:
  "body_localDate oddLinesRequest = None
   \<and> fortuneAiHandler firstEnv oddLinesRequest Map.empty =
       \<lparr> response = \<lparr> status = 200,
            json = AiJson (js ''Speak plainly today; repair begins there.'') False Fallback \<rparr>,
         cache_after = Map.empty, events = [] \<rparr>
   \<and> status (response (fortuneAiHandler firstEnv oddLinesRequest Map.empty)) \<noteq> 400
   \<and> testLocalDate oddDateRequest = Inl TypeError
   \<and> fortuneAiHandler firstEnv oddDateRequest Map.empty =
       \<lparr> response = \<lparr> status = 200,
            json = AiJson (js ''Speak plainly today; repair begins there.'') False Fallback \<rparr>,
         cache_after = Map.empty, events = [] \<rparr>"
  by (simp add: run_defs)

section \<open>The cache\<close>

lemma requestKey_keyOf:
  "linesOf req = Inr n \<Longrightarrow> requestKey env req = keyOf (fst (getOrSetUserId env req)) req n"
  by (simp add: requestKey_def)

lemma lookupPhase_fresh:
  assumes "linesOf req = Inr n" "testLocalDate req = Inr True" "requestKey env req = Inr key"
    "cache key = Some e" "now_lookup env < expiresAt e"
  shows "lookupPhase env req cache =
     (if sliceable (fst (getOrSetUserId env req))
      then Inr (Inl \<lparr> status = 200, json = AiJson (fortune e) True Cache \<rparr>)
      else Inl TypeError,
      snd (getOrSetUserId env req) @ [CacheGet key])"
  using assms by (simp add: lookupPhase_def requestKey_def Let_def)

lemma lookupPhase_stale:
  assumes "linesOf req = Inr n" "testLocalDate req = Inr True" "requestKey env req = Inr key"
    "\<forall>e. cache key = Some e \<longrightarrow> expiresAt e \<le> now_lookup env"
  shows "lookupPhase env req cache =
     (Inr (Inr \<lparr> p_userId = fst (getOrSetUserId env req), p_key = key, p_lines = n \<rparr>),
      snd (getOrSetUserId env req) @ [CacheGet key])"
  using assms by (auto simp: lookupPhase_def requestKey_def Let_def split: option.splits)

text \<open>
  A fresh entry is served to a user id that has a \<open>slice\<close> method, a string or an array:
  the answer is the stored text with \<open>cached: true\<close> and source "cache", the only effects
  are the cookie of a new user and the cache read.
\<close>

lemma handler_hit:
  assumes "linesOf req = Inr n" "testLocalDate req = Inr True" "requestKey env req = Inr key"
    "cache key = Some e" "now_lookup env < expiresAt e"
    "sliceable (fst (getOrSetUserId env req))"
  shows "fortuneAiHandler env req cache =
     \<lparr> response = \<lparr> status = 200, json = AiJson (fortune e) True Cache \<rparr>,
       cache_after = cache,
       events = snd (getOrSetUserId env req) @ [CacheGet key] \<rparr>"
  using lookupPhase_fresh [where cache = cache and env = env, OF assms(1-5)] assms(6)
  by (simp add: fortuneAiHandler_def tryBody_def catchAll_def)

text \<open>To any other user id the same entry is not served: the log line throws first.\<close>

lemma handler_hit_unsliceable:
  assumes "linesOf req = Inr n" "testLocalDate req = Inr True" "requestKey env req = Inr key"
    "cache key = Some e" "now_lookup env < expiresAt e"
    "\<not> sliceable (fst (getOrSetUserId env req))"
  shows "fortuneAiHandler env req cache =
     \<lparr> response = \<lparr> status = 200, json = AiJson (fallbackText req) False Fallback \<rparr>,
       cache_after = cache,
       events = snd (getOrSetUserId env req) @ [CacheGet key] \<rparr>"
  using lookupPhase_fresh [where cache = cache and env = env, OF assms(1-5)] assms(6)
  by (simp add: fortuneAiHandler_def tryBody_def catchAll_def)

lemma handler_miss:
  assumes "linesOf req = Inr n" "testLocalDate req = Inr True" "requestKey env req = Inr key"
    "\<forall>e. cache key = Some e \<longrightarrow> expiresAt e \<le> now_lookup env"
  shows "fortuneAiHandler env req cache =
     catchAll req (generationPath env req
       \<lparr> p_userId = fst (getOrSetUserId env req), p_key = key, p_lines = n \<rparr> cache
       (snd (getOrSetUserId env req) @ [CacheGet key]))"
  using lookupPhase_stale [where cache = cache and env = env, OF assms]
  by (simp add: fortuneAiHandler_def tryBody_def)

lemma first_response:
  "response (fortuneAiHandler firstEnv firstRequest Map.empty) =
     \<lparr> status = 200, json = AiJson sampleText False OpenAI \<rparr>"
  by (simp add: run_defs)

lemma first_cache:
  "cache_after (fortuneAiHandler firstEnv firstRequest Map.empty) =
     [firstKey \<mapsto> \<lparr> fortune = sampleText, expiresAt = 93601000 \<rparr>]"
  by (simp add: run_defs)

lemma first_lines: "linesOf firstRequest = Inr 2"
  by (simp add: run_defs)

lemma first_test: "testLocalDate firstRequest = Inr True"
  by (simp add: run_defs)

lemma first_key: "requestKey env firstRequest = Inr firstKey"
  by (simp add: run_defs)

text \<open>The second of two identical requests of a user with a string id is served the text.\<close>

lemma second_request_served:
  "fortuneAiHandler laterEnv firstRequest
      (cache_after (fortuneAiHandler firstEnv firstRequest Map.empty)) =
     \<lparr> response = \<lparr> status = 200, json = AiJson sampleText True Cache \<rparr>,
       cache_after = cache_after (fortuneAiHandler firstEnv firstRequest Map.empty),
       events = [CacheGet firstKey] \<rparr>"
proof -
  have c: "cache_after (fortuneAiHandler firstEnv firstRequest Map.empty) firstKey =
             Some \<lparr> fortune = sampleText, expiresAt = 93601000 \<rparr>"
    by (simp add: first_cache)
  have n: "now_lookup laterEnv < expiresAt \<lparr> fortune = sampleText, expiresAt = 93601000 \<rparr>"
    by (simp add: laterEnv_def sampleEnv_def)
  have u: "sliceable (fst (getOrSetUserId laterEnv firstRequest))"
    by (simp add: getOrSetUserId_def firstRequest_def sampleRequest_def js_def)
  have "fortuneAiHandler laterEnv firstRequest
      (cache_after (fortuneAiHandler firstEnv firstRequest Map.empty)) =
     \<lparr> response = \<lparr> status = 200,
          json = AiJson (fortune \<lparr> fortune = sampleText, expiresAt = 93601000 \<rparr>) True Cache \<rparr>,
       cache_after = cache_after (fortuneAiHandler firstEnv firstRequest Map.empty),
       events = snd (getOrSetUserId laterEnv firstRequest) @ [CacheGet firstKey] \<rparr>"
    by (rule handler_hit
          [where cache = "cache_after (fortuneAiHandler firstEnv firstRequest Map.empty)",
            OF first_lines first_test first_key c n u])
  then show ?thesis
    by (simp add: getOrSetUserId_def firstRequest_def sampleRequest_def js_def)
qed

text \<open>
  C1 fails on the code for a user id without a \<open>slice\<close> method. The cookie
  \<open>fcid=j:123\<close> reaches the handler as the number 123. The first request generates the
  text and stores it under the key \<open>123:en:relationship:2:2024-01-01\<close>, then the log line
  after the store throws and the answer is the fallback line. The second request, four
  seconds later, finds that entry, with its expiry far ahead; the log line
  \<open>cache hit\<close> throws before the answer, and it is the fallback line again, not the stored
  text.
\<close>

theorem numeric_cookie_hit_falls_back:
  "requestKey laterEnv numericRequest = Inr (js ''123:en:relationship:2:2024-01-01'')
   \<and> response (fortuneAiHandler firstEnv numericRequest Map.empty) =
       \<lparr> status = 200,
         json = AiJson (js ''Speak plainly today; repair begins there.'') False Fallback \<rparr>
   \<and> cache_after (fortuneAiHandler firstEnv numericRequest Map.empty)
         (js ''123:en:relationship:2:2024-01-01'')
       = Some \<lparr> fortune = sampleText, expiresAt = 93601000 \<rparr>
   \<and> now_lookup laterEnv < 93601000
   \<and> fortuneAiHandler laterEnv numericRequest
         (cache_after (fortuneAiHandler firstEnv numericRequest Map.empty)) =
       \<lparr> response = \<lparr> status = 200,
            json = AiJson (js ''Speak plainly today; repair begins there.'') False Fallback \<rparr>,
         cache_after = cache_after (fortuneAiHandler firstEnv numericRequest Map.empty),
         events = [CacheGet (js ''123:en:relationship:2:2024-01-01'')] \<rparr>"
proof -
  have k: "requestKey env numericRequest = Inr (js ''123:en:relationship:2:2024-01-01'')" for env
    by (simp add: run_defs)
  have l: "linesOf numericRequest = Inr 2" by (simp add: run_defs)
  have t: "testLocalDate numericRequest = Inr True" by (simp add: run_defs)
  have r: "response (fortuneAiHandler firstEnv numericRequest Map.empty) =
       \<lparr> status = 200,
         json = AiJson (js ''Speak plainly today; repair begins there.'') False Fallback \<rparr>"
    by (simp add: run_defs)
  have c: "cache_after (fortuneAiHandler firstEnv numericRequest Map.empty)
         (js ''123:en:relationship:2:2024-01-01'')
       = Some \<lparr> fortune = sampleText, expiresAt = 93601000 \<rparr>"
    by (simp add: run_defs)
  have n: "now_lookup laterEnv < 93601000" by (simp add: laterEnv_def sampleEnv_def)
  have u: "getOrSetUserId laterEnv numericRequest = (JNum (js ''123''), [])"
    by (simp add: getOrSetUserId_def numericRequest_def sampleRequest_def js_def)
  have "fortuneAiHandler laterEnv numericRequest
         (cache_after (fortuneAiHandler firstEnv numericRequest Map.empty)) =
       \<lparr> response = \<lparr> status = 200,
            json = AiJson (fallbackText numericRequest) False Fallback \<rparr>,
         cache_after = cache_after (fortuneAiHandler firstEnv numericRequest Map.empty),
         events = snd (getOrSetUserId laterEnv numericRequest)
                  @ [CacheGet (js ''123:en:relationship:2:2024-01-01'')] \<rparr>"
    by (rule handler_hit_unsliceable
          [where cache = "cache_after (fortuneAiHandler firstEnv numericRequest Map.empty)",
            OF l t k c])
      (simp_all add: n u)
  moreover have "fallbackText numericRequest = js ''Speak plainly today; repair begins there.''"
    by (simp add: fallbackText_def numericRequest_def sampleRequest_def js_def)
  ultimately show ?thesis using k r c n u by simp
qed

section \<open>Colliding keys\<close>

text \<open>
  C10. The key \<open>userId:lang:theme:lines:localDate\<close> is not injective: the cookie is
  used as it comes, so user "a:en:b" with theme "c" and user "a" with theme "b:en:c"
  (same lang "en", same lines, same localDate) are different tuples with the same key,
  and the second user's request is answered from the entry stored for the first.
\<close>

theorem cacheKey_collision:
  "cacheKey (js ''a:en:b'') (js ''en'') (js ''c'') n d
     = cacheKey (js ''a'') (js ''en'') (js ''b:en:c'') n d
   \<and> requestTuple firstEnv colonRequestA \<noteq> requestTuple laterEnv colonRequestB
   \<and> requestKey firstEnv colonRequestA = requestKey laterEnv colonRequestB
   \<and> requestKey firstEnv colonRequestA = Inr (js ''a:en:b:en:c:2:2024-01-01'')
   \<and> response (fortuneAiHandler firstEnv colonRequestA Map.empty) =
       \<lparr> status = 200, json = AiJson sampleText False OpenAI \<rparr>
   \<and> response (fortuneAiHandler laterEnv colonRequestB
        (cache_after (fortuneAiHandler firstEnv colonRequestA Map.empty))) =
       \<lparr> status = 200, json = AiJson sampleText True Cache \<rparr>"
proof -
  have k: "cacheKey (js ''a:en:b'') (js ''en'') (js ''c'') n d
     = cacheKey (js ''a'') (js ''en'') (js ''b:en:c'') n d"
    by (simp add: cacheKey_def js_def)
  have t: "requestTuple firstEnv colonRequestA \<noteq> requestTuple laterEnv colonRequestB"
    by (simp add: run_defs)
  have ka: "requestKey firstEnv colonRequestA = Inr (js ''a:en:b:en:c:2:2024-01-01'')"
    by (simp add: run_defs)
  have kb: "requestKey laterEnv colonRequestB = Inr (js ''a:en:b:en:c:2:2024-01-01'')"
    by (simp add: run_defs)
  have r1: "response (fortuneAiHandler firstEnv colonRequestA Map.empty) =
       \<lparr> status = 200, json = AiJson sampleText False OpenAI \<rparr>"
    by (simp add: run_defs)
  have c1: "cache_after (fortuneAiHandler firstEnv colonRequestA Map.empty)
              (js ''a:en:b:en:c:2:2024-01-01'')
            = Some \<lparr> fortune = sampleText, expiresAt = 93601000 \<rparr>"
    by (simp add: run_defs)
  have lb: "linesOf colonRequestB = Inr 2" by (simp add: run_defs)
  have tb: "testLocalDate colonRequestB = Inr True" by (simp add: run_defs)
  have "fortuneAiHandler laterEnv colonRequestB
        (cache_after (fortuneAiHandler firstEnv colonRequestA Map.empty)) =
     \<lparr> response = \<lparr> status = 200,
          json = AiJson (fortune \<lparr> fortune = sampleText, expiresAt = 93601000 \<rparr>) True Cache \<rparr>,
       cache_after = cache_after (fortuneAiHandler firstEnv colonRequestA Map.empty),
       events = snd (getOrSetUserId laterEnv colonRequestB)
                @ [CacheGet (js ''a:en:b:en:c:2:2024-01-01'')] \<rparr>"
    by (rule handler_hit
          [where cache = "cache_after (fortuneAiHandler firstEnv colonRequestA Map.empty)",
            OF lb tb kb c1])
      (simp_all add: laterEnv_def sampleEnv_def getOrSetUserId_def colonRequestB_def
        sampleRequest_def js_def)
  then have "response (fortuneAiHandler laterEnv colonRequestB
        (cache_after (fortuneAiHandler firstEnv colonRequestA Map.empty))) =
       \<lparr> status = 200, json = AiJson sampleText True Cache \<rparr>" by simp
  with k t ka kb r1 show ?thesis by simp
qed

section \<open>Errors\<close>

text \<open>
  Where the \<open>try\<close> block throws, in the order of the source: converting \<open>lines\<close> for
  \<open>parseInt\<close>, converting \<open>localDate\<close> for the test, converting the user id or the theme
  for the key, the log line of a cache hit, \<open>generateWithOpenAI\<close>, converting the
  provider's text in \<open>formatFortune\<close>, the log line after the store.
\<close>

lemma throws_lines:
  "linesOf req = Inl err \<Longrightarrow> tryBody env req cache = (Inl err, cache, [])"
  by (simp add: tryBody_def lookupPhase_def)

lemma throws_test:
  "linesOf req = Inr n \<Longrightarrow> testLocalDate req = Inl err \<Longrightarrow>
   tryBody env req cache = (Inl err, cache, [])"
  by (simp add: tryBody_def lookupPhase_def)

lemma throws_key:
  "linesOf req = Inr n \<Longrightarrow> testLocalDate req = Inr True \<Longrightarrow> requestKey env req = Inl err \<Longrightarrow>
   tryBody env req cache = (Inl err, cache, snd (getOrSetUserId env req))"
  by (simp add: tryBody_def lookupPhase_def requestKey_def Let_def)

lemma throws_hit_log:
  assumes "linesOf req = Inr n" "testLocalDate req = Inr True" "requestKey env req = Inr key"
    "cache key = Some e" "now_lookup env < expiresAt e"
    "\<not> sliceable (fst (getOrSetUserId env req))"
  shows "tryBody env req cache =
           (Inl TypeError, cache, snd (getOrSetUserId env req) @ [CacheGet key])"
  using lookupPhase_fresh [where cache = cache and env = env, OF assms(1-5)] assms(6)
  by (simp add: tryBody_def)

lemma throws_generate:
  assumes "fst (generateWithOpenAI env (langOf req) (p_lines waiting)) = Inl err"
  shows "fst (generationPath env req waiting cache earlier) = Inl err
         \<and> fst (snd (generationPath env req waiting cache earlier)) = cache"
  using assms by (simp add: generationPath_def Let_def)

lemma throws_text:
  assumes "fst (generateWithOpenAI env (langOf req) (p_lines waiting)) = Inr raw"
    "stringOfText raw = Inl err"
  shows "fst (generationPath env req waiting cache earlier) = Inl err
         \<and> fst (snd (generationPath env req waiting cache earlier)) = cache"
  using assms by (simp add: generationPath_def Let_def)

lemma throws_store_log:
  assumes "fst (generateWithOpenAI env (langOf req) (p_lines waiting)) = Inr raw"
    "stringOfText raw = Inr s" "formatFortune s (p_lines waiting) 140 \<noteq> []"
    "\<not> sliceable (p_userId waiting)"
  shows "fst (generationPath env req waiting cache earlier) = Inl TypeError
         \<and> fst (snd (generationPath env req waiting cache earlier)) =
             cache(p_key waiting \<mapsto>
               \<lparr> fortune = formatFortune s (p_lines waiting) 140,
                 expiresAt = now_store env + 26 * 3600 * 1000 \<rparr>)"
  using assms by (simp add: generationPath_def Let_def ttlMsFromLocalDate_def)

text \<open>When \<open>generateWithOpenAI\<close> throws: no credential, a rejected call, or no response object.\<close>

lemma generate_throws_iff:
  "(\<exists>err. fst (generateWithOpenAI env lang n) = Inl err) \<longleftrightarrow>
     api_key env = None \<or> api_key env = Some []
     \<or> (\<exists>err. create env (buildPrompt lang n) = Inl err)
     \<or> create env (buildPrompt lang n) = Inr NoObject"
proof (cases "api_key env")
  case None
  then show ?thesis by (simp add: generateWithOpenAI_def)
next
  case (Some k)
  show ?thesis
  proof (cases "create env (buildPrompt lang n)")
    case (Inl err)
    with Some show ?thesis by (simp add: generateWithOpenAI_def)
  next
    case (Inr rsp)
    have "(\<exists>err. firstContent rsp = Inl err) \<longleftrightarrow> rsp = NoObject"
      by (cases rsp rule: firstContent.cases) simp_all
    with Some Inr show ?thesis by (simp add: generateWithOpenAI_def)
  qed
qed

lemma generate_events:
  "snd (generateWithOpenAI env lang n) = []
   \<or> snd (generateWithOpenAI env lang n) = [ProviderRequest (buildPrompt lang n)]"
  by (auto simp: generateWithOpenAI_def split: option.splits sum.splits)

lemma cookie_events:
  "snd (getOrSetUserId env req) = []
   \<or> snd (getOrSetUserId env req) = [SetCookie (random_id env)]"
  by (auto simp: getOrSetUserId_def split: option.splits)

lemma fallbackText_nonempty: "fallbackText req \<noteq> []"
  by (simp add: fallbackText_def js_def)

lemma catchAll_throw:
  "fst attempt = Inl err \<Longrightarrow>
   response (catchAll req attempt) =
     \<lparr> status = 200, json = AiJson (fallbackText req) False Fallback \<rparr>"
  by (cases attempt) (simp add: catchAll_def)

text \<open>
  C6. For every request, whatever error is thrown anywhere in the \<open>try\<close> block, so
  anywhere on the generation path after validation and before it as well, the handler
  answers 200 with source "fallback" and the static line of the request's language: the
  Turkish line if the body's \<open>lang\<close> is the string "tr", the English line otherwise. The
  line is not empty.
\<close>

theorem any_error_falls_back:
  assumes "fst (tryBody env req cache) = Inl err"
  shows "response (fortuneAiHandler env req cache) =
           \<lparr> status = 200, json = AiJson (fallbackText req) False Fallback \<rparr>
     \<and> fallbackText req \<noteq> []
     \<and> fallbackText req =
         (if body_lang req = Some (JStr (js ''tr''))
          then js ''Bug'' @ [0xFC] @ js ''n a'' @ [0xE7, 0x131] @ js ''k konu'' @ [0x15F]
               @ js ''mak ba'' @ [0x11F, 0x131] @ js ''n'' @ [0x131] @ js ''z'' @ [0x131]
               @ js '' onarabilir.''
          else js ''Speak plainly today; repair begins there.'')"
  using catchAll_throw [OF assms, of req] fallbackText_nonempty [of req]
  by (simp add: fortuneAiHandler_def fallbackText_def)

theorem any_error_falls_back_witness:
  "fst (tryBody keylessEnv firstRequest Map.empty) = Inl MissingApiKey
   \<and> response (fortuneAiHandler keylessEnv firstRequest Map.empty) =
        \<lparr> status = 200,
          json = AiJson (js ''Speak plainly today; repair begins there.'') False Fallback \<rparr>
   \<and> fst (tryBody laterEnv firstRequest Map.empty) = Inl ProviderError
   \<and> response (fortuneAiHandler laterEnv firstRequest Map.empty) =
        \<lparr> status = 200,
          json = AiJson (js ''Speak plainly today; repair begins there.'') False Fallback \<rparr>
   \<and> fst (tryBody firstEnv oddThemeRequest Map.empty) = Inl TypeError
   \<and> response (fortuneAiHandler firstEnv oddThemeRequest Map.empty) =
        \<lparr> status = 200,
          json = AiJson (js ''Speak plainly today; repair begins there.'') False Fallback \<rparr>
   \<and> fst (tryBody oddTextEnv firstRequest Map.empty) = Inl TypeError
   \<and> response (fortuneAiHandler oddTextEnv firstRequest Map.empty) =
        \<lparr> status = 200,
          json = AiJson (js ''Speak plainly today; repair begins there.'') False Fallback \<rparr>
   \<and> fst (tryBody firstEnv numericRequest Map.empty) = Inl TypeError
   \<and> response (fortuneAiHandler firstEnv numericRequest Map.empty) =
        \<lparr> status = 200,
          json = AiJson (js ''Speak plainly today; repair begins there.'') False Fallback \<rparr>"
proof -
  have h1: "fst (tryBody keylessEnv firstRequest Map.empty) = Inl MissingApiKey"
    by (simp add: run_defs)
  have h2: "fst (tryBody laterEnv firstRequest Map.empty) = Inl ProviderError"
    by (simp add: run_defs)
  have h3: "fst (tryBody firstEnv oddThemeRequest Map.empty) = Inl TypeError"
    by (simp add: run_defs)
  have h4: "fst (tryBody oddTextEnv firstRequest Map.empty) = Inl TypeError"
    by (simp add: run_defs)
  have h5: "fst (tryBody firstEnv numericRequest Map.empty) = Inl TypeError"
    by (simp add: run_defs)
  have en: "body_lang firstRequest \<noteq> Some (JStr (js ''tr''))"
    "body_lang oddThemeRequest \<noteq> Some (JStr (js ''tr''))"
    "body_lang numericRequest \<noteq> Some (JStr (js ''tr''))"
    by (simp_all add: firstRequest_def oddThemeRequest_def numericRequest_def
        sampleRequest_def js_def)
  show ?thesis
    using any_error_falls_back [OF h1] any_error_falls_back [OF h2]
      any_error_falls_back [OF h3] any_error_falls_back [OF h4]
      any_error_falls_back [OF h5] h1 h2 h3 h4 h5 en
    by simp
qed

section \<open>Unusable output\<close>

lemma generationPath_empty:
  assumes "fst (generateWithOpenAI env (langOf req) (p_lines waiting)) = Inr text"
    and "stringOfText text = Inr raw"
    and "formatFortune raw (p_lines waiting) 140 = []"
  shows "generationPath env req waiting cache earlier =
     (Inr \<lparr> status = 502, json = ErrorJson (js ''Empty AI result'') \<rparr>, cache,
      earlier @ [Generate (langOf req) (p_lines waiting)]
        @ snd (generateWithOpenAI env (langOf req) (p_lines waiting)))"
  using assms by (simp add: generationPath_def Let_def)

text \<open>
  C7. For every request on the generation path (it passes validation, its key has no
  fresh entry) for which the provider returns text whose formatted result is the empty
  string, the handler answers 502 with the body \<open>{ error: "Empty AI result" }\<close>, a status
  other than the 400 of the validation error, and stores nothing: the cache is unchanged
  and no write to it is among the effects.
\<close>

theorem empty_result_is_502:
  assumes "linesOf req = Inr n" "testLocalDate req = Inr True" "requestKey env req = Inr key"
    and "\<forall>e. cache key = Some e \<longrightarrow> expiresAt e \<le> now_lookup env"
    and "fst (generateWithOpenAI env (langOf req) n) = Inr text"
    and "stringOfText text = Inr raw"
    and "formatFortune raw n 140 = []"
  shows "response (fortuneAiHandler env req cache) =
           \<lparr> status = 502, json = ErrorJson (js ''Empty AI result'') \<rparr>
     \<and> status (response (fortuneAiHandler env req cache)) \<noteq> 400
     \<and> cache_after (fortuneAiHandler env req cache) = cache
     \<and> (\<forall>k v. CacheSet k v \<notin> set (events (fortuneAiHandler env req cache)))"
proof -
  let ?waiting = "\<lparr> p_userId = fst (getOrSetUserId env req), p_key = key, p_lines = n \<rparr>"
  have g: "generationPath env req ?waiting cache
             (snd (getOrSetUserId env req) @ [CacheGet key]) =
     (Inr \<lparr> status = 502, json = ErrorJson (js ''Empty AI result'') \<rparr>, cache,
      (snd (getOrSetUserId env req) @ [CacheGet key]) @ [Generate (langOf req) n]
        @ snd (generateWithOpenAI env (langOf req) n))"
    using generationPath_empty [where waiting = ?waiting and cache = cache] assms(5-7)
    by simp
  have "fortuneAiHandler env req cache =
     \<lparr> response = \<lparr> status = 502, json = ErrorJson (js ''Empty AI result'') \<rparr>,
       cache_after = cache,
       events = (snd (getOrSetUserId env req) @ [CacheGet key]) @ [Generate (langOf req) n]
                @ snd (generateWithOpenAI env (langOf req) n) \<rparr>"
    using handler_miss [where cache = cache and env = env, OF assms(1-4)] g
    by (simp add: catchAll_def)
  then show ?thesis
    using generate_events [of env "langOf req" n] cookie_events [of env req] by auto
qed

theorem empty_result_is_502_witness:
  "linesOf firstRequest = Inr 2 \<and> testLocalDate firstRequest = Inr True
   \<and> requestKey blankEnv firstRequest = Inr firstKey
   \<and> (Map.empty :: cache) firstKey = None
   \<and> fst (generateWithOpenAI blankEnv (langOf firstRequest) 2) = Inr (JStr [0x20, CR, LF, 0x20])
   \<and> stringOfText (JStr [0x20, CR, LF, 0x20]) = Inr [0x20, CR, LF, 0x20]
   \<and> formatFortune [0x20, CR, LF, 0x20] 2 140 = []
   \<and> response (fortuneAiHandler blankEnv firstRequest Map.empty) =
        \<lparr> status = 502, json = ErrorJson (js ''Empty AI result'') \<rparr>
   \<and> cache_after (fortuneAiHandler blankEnv firstRequest Map.empty) = Map.empty"
proof -
  have h4: "\<forall>e. (Map.empty :: cache) firstKey = Some e \<longrightarrow> expiresAt e \<le> now_lookup blankEnv"
    by simp
  have h5: "fst (generateWithOpenAI blankEnv (langOf firstRequest) 2)
              = Inr (JStr [0x20, CR, LF, 0x20])"
    by (simp add: run_defs)
  have h6: "stringOfText (JStr [0x20, CR, LF, 0x20]) = Inr [0x20, CR, LF, 0x20]"
    by (simp add: stringOfText_def orEmpty_def)
  have h7: "formatFortune [0x20, CR, LF, 0x20] 2 140 = []"
    by (simp add: run_defs)
  from empty_result_is_502
    [where req = firstRequest and env = blankEnv and cache = Map.empty,
      OF first_lines first_test first_key h4 h5 h6 h7]
    first_lines first_test first_key [of blankEnv] h5 h6 h7
  show ?thesis by simp
qed

section \<open>Expiry of stored entries\<close>

text \<open>A turn leaves the cache as it was or stores one entry, stamped with its own clock.\<close>

lemma generationPath_cache:
  "fst (snd (generationPath env req waiting cache earlier)) = cache
   \<or> (\<exists>f. fst (snd (generationPath env req waiting cache earlier)) =
         cache(p_key waiting \<mapsto>
           \<lparr> fortune = f, expiresAt = now_store env + 26 * 3600 * 1000 \<rparr>))"
  by (auto simp: generationPath_def Let_def ttlMsFromLocalDate_def split: sum.splits)

lemma cache_after_catchAll: "cache_after (catchAll req attempt) = fst (snd attempt)"
  by (cases attempt rule: prod_cases3) (simp add: catchAll_def split: sum.splits)

lemma events_catchAll: "events (catchAll req attempt) = snd (snd attempt)"
  by (cases attempt rule: prod_cases3) (simp add: catchAll_def split: sum.splits)

lemma tryBody_cache:
  "fst (snd (tryBody env req cache)) = cache
   \<or> (\<exists>k f. fst (snd (tryBody env req cache)) =
         cache(k \<mapsto> \<lparr> fortune = f, expiresAt = now_store env + 26 * 3600 * 1000 \<rparr>))"
proof (cases "lookupPhase env req cache")
  case (Pair r evs)
  show ?thesis
  proof (cases r)
    case (Inl err)
    with Pair show ?thesis by (simp add: tryBody_def)
  next
    case (Inr a)
    show ?thesis
    proof (cases a)
      case (Inl answer)
      with Pair Inr show ?thesis by (simp add: tryBody_def)
    next
      case (Inr waiting)
      with Pair \<open>r = Inr a\<close> have "tryBody env req cache = generationPath env req waiting cache evs"
        by (simp add: tryBody_def)
      then show ?thesis using generationPath_cache [of env req waiting cache evs] by auto
    qed
  qed
qed

lemma turn_cache:
  "cache_after (turnOutcome env req t cache) = cache
   \<or> (\<exists>k f. cache_after (turnOutcome env req t cache) =
         cache(k \<mapsto> \<lparr> fortune = f, expiresAt = now_store env + 26 * 3600 * 1000 \<rparr>))"
proof (cases t)
  case Whole
  then show ?thesis
    using tryBody_cache [of env req cache]
    by (simp add: turnOutcome_def fortuneAiHandler_def cache_after_catchAll)
next
  case (Resume waiting)
  then show ?thesis
    using generationPath_cache [of env req waiting cache "[]"]
    by (auto simp: turnOutcome_def cache_after_catchAll)
qed

text \<open>Every store among the effects of a turn is that of the turn's own clock plus 26 hours.\<close>

lemma generationPath_stores:
  assumes "CacheSet k v \<in> set (snd (snd (generationPath env req waiting cache earlier)))"
    and "\<forall>k v. CacheSet k v \<notin> set earlier"
  shows "expiresAt v = now_store env + 26 * 3600 * 1000
         \<and> fst (snd (generationPath env req waiting cache earlier)) k = Some v"
proof -
  have "snd (generateWithOpenAI env (langOf req) (p_lines waiting)) = []
        \<or> snd (generateWithOpenAI env (langOf req) (p_lines waiting))
            = [ProviderRequest (buildPrompt (langOf req) (p_lines waiting))]"
    by (rule generate_events)
  then show ?thesis
    using assms
    by (auto simp: generationPath_def Let_def ttlMsFromLocalDate_def
        split: sum.splits if_splits)
qed

lemma lookupPhase_no_store: "CacheSet k v \<notin> set (snd (lookupPhase env req cache))"
  using cookie_events [of env req]
  by (auto simp: lookupPhase_def Let_def split: sum.splits option.splits if_splits)

lemma turn_stores:
  assumes "CacheSet k v \<in> set (events (turnOutcome env req t cache))"
  shows "expiresAt v = now_store env + 26 * 3600 * 1000
         \<and> cache_after (turnOutcome env req t cache) k = Some v"
proof (cases t)
  case (Resume waiting)
  with assms show ?thesis
    using generationPath_stores [of k v env req waiting cache "[]"]
    by (simp add: turnOutcome_def cache_after_catchAll events_catchAll)
next
  case Whole
  obtain r evs where l: "lookupPhase env req cache = (r, evs)" by (cases "lookupPhase env req cache")
  have none: "\<forall>k v. CacheSet k v \<notin> set evs"
    using lookupPhase_no_store [of _ _ env req cache] l by simp
  show ?thesis
  proof (cases r)
    case (Inl err)
    with Whole assms l none show ?thesis
      by (simp add: turnOutcome_def fortuneAiHandler_def tryBody_def events_catchAll)
  next
    case (Inr a)
    show ?thesis
    proof (cases a)
      case (Inl answer)
      with Whole assms l none \<open>r = Inr a\<close> show ?thesis
        by (simp add: turnOutcome_def fortuneAiHandler_def tryBody_def events_catchAll)
    next
      case (Inr waiting)
      with l \<open>r = Inr a\<close> have "tryBody env req cache = generationPath env req waiting cache evs"
        by (simp add: tryBody_def)
      with Whole assms show ?thesis
        using generationPath_stores [of k v env req waiting cache evs] none
        by (simp add: turnOutcome_def fortuneAiHandler_def cache_after_catchAll events_catchAll)
    qed
  qed
qed

lemma runTurns_births:
  assumes "\<forall>k e. cache k = Some e \<longrightarrow> born k = Some (expiresAt e - 26 * 3600 * 1000)"
  shows "\<forall>k e. fst (runTurns (cache, born) turns) k = Some e
           \<longrightarrow> snd (runTurns (cache, born) turns) k = Some (expiresAt e - 26 * 3600 * 1000)"
  using assms
proof (induction turns arbitrary: cache born)
  case Nil
  then show ?case by simp
next
  case (Cons step rest)
  obtain env req t where step: "step = (env, req, t)" by (cases step)
  let ?new = "cache_after (turnOutcome env req t cache)"
  let ?born = "restamp (now_store env) cache ?new born"
  have "\<forall>k e. ?new k = Some e \<longrightarrow> ?born k = Some (expiresAt e - 26 * 3600 * 1000)"
  proof (intro allI impI)
    fix k e
    assume new: "?new k = Some e"
    show "?born k = Some (expiresAt e - 26 * 3600 * 1000)"
    proof (cases "?new k = cache k")
      case True
      with new Cons.prems show ?thesis by (simp add: restamp_def)
    next
      case False
      from turn_cache [of env req t cache] obtain k0 f
        where upd: "?new = cache(k0 \<mapsto>
                 \<lparr> fortune = f, expiresAt = now_store env + 26 * 3600 * 1000 \<rparr>)"
        using False by auto
      with False have "k = k0" by (auto split: if_splits)
      with upd new have "expiresAt e = now_store env + 26 * 3600 * 1000" by auto
      with False show ?thesis by (simp add: restamp_def)
    qed
  qed
  from Cons.IH [OF this] show ?case by (simp add: step)
qed

text \<open>
  C8. Requests may overlap in any way: a run is any sequence of turns, each a whole
  request or a request resuming after its provider call, started on the empty cache of a
  fresh process. After any run, whatever entry a key holds was put there by the turn that
  last changed the key, and its expiry is that turn's clock reading at the store plus 26
  hours (\<open>26 * 3600 * 1000\<close> ms). Every store of every turn, on whatever cache, writes an
  entry that expires 26 hours after the turn's own clock reading, and the time to live is
  the same for every \<open>localDate\<close>.
\<close>

theorem cache_expiry_invariant:
  "(fst (runTurns (Map.empty, Map.empty) turns) k = Some e
      \<longrightarrow> (\<exists>created. snd (runTurns (Map.empty, Map.empty) turns) k = Some created
             \<and> expiresAt e = created + 26 * 3600 * 1000))
   \<and> (CacheSet k' v \<in> set (events (turnOutcome env req t cache))
      \<longrightarrow> expiresAt v = now_store env + 26 * 3600 * 1000
          \<and> cache_after (turnOutcome env req t cache) k' = Some v)
   \<and> (\<forall>localDate. ttlMsFromLocalDate localDate = 26 * 3600 * 1000)"
proof (intro conjI impI)
  assume "fst (runTurns (Map.empty, Map.empty) turns) k = Some e"
  moreover have "\<forall>k e. fst (runTurns (Map.empty, Map.empty) turns) k = Some e
           \<longrightarrow> snd (runTurns (Map.empty, Map.empty) turns) k
                 = Some (expiresAt e - 26 * 3600 * 1000)"
    by (rule runTurns_births) simp
  ultimately have "snd (runTurns (Map.empty, Map.empty) turns) k
                     = Some (expiresAt e - 26 * 3600 * 1000)" by blast
  then show "\<exists>created. snd (runTurns (Map.empty, Map.empty) turns) k = Some created
             \<and> expiresAt e = created + 26 * 3600 * 1000" by simp
next
  assume "CacheSet k' v \<in> set (events (turnOutcome env req t cache))"
  then show "expiresAt v = now_store env + 26 * 3600 * 1000" by (simp add: turn_stores)
next
  assume "CacheSet k' v \<in> set (events (turnOutcome env req t cache))"
  then show "cache_after (turnOutcome env req t cache) k' = Some v" by (simp add: turn_stores)
next
  show "\<forall>localDate. ttlMsFromLocalDate localDate = 26 * 3600 * 1000"
    by (simp add: ttlMsFromLocalDate_def)
qed

text \<open>
  Two overlapping requests for one key: both found the cache empty, the first stores at
  1000, the second resumes at 5000 and overwrites. The entry left is the second one,
  born at 5000 and expiring 26 hours later.
\<close>

theorem cache_expiry_invariant_witness:
  "fst (runTurns (Map.empty, Map.empty)
          [(firstEnv, firstRequest, Whole), (otherEnv, firstRequest, Resume firstWaiting)])
       firstKey
     = Some \<lparr> fortune = otherText, expiresAt = 93605000 \<rparr>
   \<and> snd (runTurns (Map.empty, Map.empty)
          [(firstEnv, firstRequest, Whole), (otherEnv, firstRequest, Resume firstWaiting)])
       firstKey
     = Some 5000
   \<and> CacheSet firstKey \<lparr> fortune = sampleText, expiresAt = 93601000 \<rparr>
       \<in> set (events (turnOutcome firstEnv firstRequest Whole Map.empty))
   \<and> now_store firstEnv = 1000"
proof -
  let ?turns = "[(firstEnv, firstRequest, Whole), (otherEnv, firstRequest, Resume firstWaiting)]"
  have h: "fst (runTurns (Map.empty, Map.empty) ?turns) firstKey
             = Some \<lparr> fortune = otherText, expiresAt = 93605000 \<rparr>"
    by (simp add: run_defs)
  have s: "CacheSet firstKey \<lparr> fortune = sampleText, expiresAt = 93601000 \<rparr>
       \<in> set (events (turnOutcome firstEnv firstRequest Whole Map.empty))"
    by (simp add: run_defs)
  have n: "now_store firstEnv = 1000" by (simp add: firstEnv_def sampleEnv_def)
  from cache_expiry_invariant
    [where turns = ?turns and k = firstKey
       and e = "\<lparr> fortune = otherText, expiresAt = 93605000 \<rparr>"
       and k' = firstKey and v = "\<lparr> fortune = sampleText, expiresAt = 93601000 \<rparr>"
       and env = firstEnv and req = firstRequest and t = Whole and cache = Map.empty]
    h s n
  show ?thesis by simp
qed

end
